theory Spec2Isabelle
  imports Complex_Main
begin

section \<open>Numbers\<close>

text \<open>
  The arrays of \<^verbatim>\<open>.ipynb_checkpoints/timeseries-checkpoint.py\<close>, the only copy of the
  module \<^verbatim>\<open>timeseries\<close>, hold IEEE doubles. They are modelled as reals extended with the
  three special values that the code tests for (\<^verbatim>\<open>np.nan\<close>, \<^verbatim>\<open>np.isfinite\<close>). The
  special values follow numpy's rules, where an invalid operation yields NaN or an
  infinity with a warning and no exception. Sums, products, quotients and square roots of
  finite numbers are computed without rounding, overflow or underflow, and zero carries no
  sign. The one rounding that is modelled is the one in numpy's remainder, which decides
  whether a folded phase can reach 1.
\<close>

datatype npfloat = Fin real | PInf | NInf | NaN

fun isfinite :: "npfloat \<Rightarrow> bool" where
  "isfinite (Fin _) = True"
| "isfinite _ = False"

fun fneg :: "npfloat \<Rightarrow> npfloat" where
  "fneg (Fin a) = Fin (- a)"
| "fneg PInf = NInf"
| "fneg NInf = PInf"
| "fneg NaN = NaN"

fun fadd :: "npfloat \<Rightarrow> npfloat \<Rightarrow> npfloat" where
  "fadd NaN _ = NaN"
| "fadd _ NaN = NaN"
| "fadd (Fin a) (Fin b) = Fin (a + b)"
| "fadd PInf NInf = NaN"
| "fadd NInf PInf = NaN"
| "fadd PInf _ = PInf"
| "fadd NInf _ = NInf"
| "fadd _ PInf = PInf"
| "fadd _ NInf = NInf"

definition fsub :: "npfloat \<Rightarrow> npfloat \<Rightarrow> npfloat" where
  "fsub a b = fadd a (fneg b)"

fun fmul :: "npfloat \<Rightarrow> npfloat \<Rightarrow> npfloat" where
  "fmul NaN _ = NaN"
| "fmul _ NaN = NaN"
| "fmul (Fin a) (Fin b) = Fin (a * b)"
| "fmul (Fin a) PInf = (if a = 0 then NaN else if 0 < a then PInf else NInf)"
| "fmul (Fin a) NInf = (if a = 0 then NaN else if 0 < a then NInf else PInf)"
| "fmul PInf (Fin b) = (if b = 0 then NaN else if 0 < b then PInf else NInf)"
| "fmul NInf (Fin b) = (if b = 0 then NaN else if 0 < b then NInf else PInf)"
| "fmul PInf PInf = PInf"
| "fmul PInf NInf = NInf"
| "fmul NInf PInf = NInf"
| "fmul NInf NInf = PInf"

text \<open>numpy's \<^verbatim>\<open>/\<close>: a zero divisor gives an infinity, or NaN for \<^verbatim>\<open>0/0\<close>.\<close>

fun fdiv :: "npfloat \<Rightarrow> npfloat \<Rightarrow> npfloat" where
  "fdiv NaN _ = NaN"
| "fdiv _ NaN = NaN"
| "fdiv (Fin a) (Fin b) =
     (if b = 0 then (if a = 0 then NaN else if 0 < a then PInf else NInf) else Fin (a / b))"
| "fdiv (Fin a) PInf = Fin 0"
| "fdiv (Fin a) NInf = Fin 0"
| "fdiv PInf (Fin b) = (if 0 \<le> b then PInf else NInf)"
| "fdiv NInf (Fin b) = (if 0 \<le> b then NInf else PInf)"
| "fdiv PInf PInf = NaN"
| "fdiv PInf NInf = NaN"
| "fdiv NInf PInf = NaN"
| "fdiv NInf NInf = NaN"

text \<open>
  Rounding to the nearest double, ties to the even significand, for a real in the normal
  range of the doubles (no overflow, no subnormal numbers): with \<open>2\<^sup>e \<le> |x| < 2\<^sup>e\<^sup>+\<^sup>1\<close> the
  doubles around \<open>x\<close> are the multiples of \<open>2\<^sup>e\<^sup>-\<^sup>5\<^sup>2\<close>.
\<close>

definition pow2 :: "int \<Rightarrow> real" where
  "pow2 k = (if 0 \<le> k then 2 ^ nat k else 1 / 2 ^ nat (- k))"

definition round_half_even :: "real \<Rightarrow> int" where
  "round_half_even q =
     (let f = \<lfloor>q\<rfloor>
      in if q - of_int f < 1/2 then f
         else if 1/2 < q - of_int f then f + 1
         else if even f then f else f + 1)"

definition round_to_double :: "real \<Rightarrow> real" where
  "round_to_double x =
     (if x = 0 then 0
      else (let e = \<lfloor>log 2 \<bar>x\<bar>\<rfloor>;
                ulp = pow2 (e - 52)
            in ulp * of_int (round_half_even (x / ulp))))"

text \<open>
  C's \<^verbatim>\<open>fmod\<close>, the remainder of the division truncated towards zero; it is exact in
  doubles.
\<close>

definition c_fmod :: "real \<Rightarrow> real \<Rightarrow> real" where
  "c_fmod x p = x - p * of_int (if 0 \<le> x / p then \<lfloor>x / p\<rfloor> else \<lceil>x / p\<rceil>)"

text \<open>
  numpy's \<^verbatim>\<open>%\<close> on two finite doubles with a non-zero divisor (\<^verbatim>\<open>npy_remainder\<close>):
  \<^verbatim>\<open>mod = fmod(a, b)\<close>, and \<^verbatim>\<open>mod += b\<close> when \<^verbatim>\<open>mod\<close> is not zero and its sign
  differs from that of \<^verbatim>\<open>b\<close>. This sum is a floating-point addition, so it is rounded.
\<close>

definition np_remainder :: "real \<Rightarrow> real \<Rightarrow> real" where
  "np_remainder x p =
     (let m = c_fmod x p
      in if m \<noteq> 0 \<and> (p < 0) \<noteq> (m < 0) then round_to_double (m + p) else m)"

text \<open>
  numpy's \<^verbatim>\<open>%\<close> (\<^verbatim>\<open>np.remainder\<close>) on all values: a zero divisor or an infinite
  dividend gives NaN, and an infinite divisor is added like a finite one.
\<close>

fun fmod :: "npfloat \<Rightarrow> npfloat \<Rightarrow> npfloat" where
  "fmod NaN _ = NaN"
| "fmod _ NaN = NaN"
| "fmod PInf _ = NaN"
| "fmod NInf _ = NaN"
| "fmod (Fin x) (Fin p) = (if p = 0 then NaN else Fin (np_remainder x p))"
| "fmod (Fin x) PInf = (if x < 0 then PInf else Fin x)"
| "fmod (Fin x) NInf = (if 0 < x then NInf else Fin x)"

fun fsqrt :: "npfloat \<Rightarrow> npfloat" where
  "fsqrt (Fin a) = (if a < 0 then NaN else Fin (sqrt a))"
| "fsqrt PInf = PInf"
| "fsqrt NInf = NaN"
| "fsqrt NaN = NaN"

text \<open>Comparisons: every comparison with NaN is false.\<close>

fun fless :: "npfloat \<Rightarrow> npfloat \<Rightarrow> bool" where
  "fless NaN _ = False"
| "fless _ NaN = False"
| "fless (Fin a) (Fin b) = (a < b)"
| "fless PInf _ = False"
| "fless _ NInf = False"
| "fless NInf _ = True"
| "fless _ PInf = True"

fun fle :: "npfloat \<Rightarrow> npfloat \<Rightarrow> bool" where
  "fle NaN _ = False"
| "fle _ NaN = False"
| "fle (Fin a) (Fin b) = (a \<le> b)"
| "fle NInf _ = True"
| "fle _ PInf = True"
| "fle PInf _ = False"
| "fle _ NInf = False"

text \<open>\<^verbatim>\<open>np.sum\<close> of a one-dimensional array.\<close>

definition np_sum :: "npfloat list \<Rightarrow> npfloat" where
  "np_sum xs = foldl fadd (Fin 0) xs"

section \<open>Errors\<close>

text \<open>
  Every exception that the modelled code can raise. The three \<^verbatim>\<open>ValueError\<close>s that
  \<^verbatim>\<open>bin_phase_folded_data\<close> raises itself are told apart by the name the
  specification gives them.
\<close>

datatype error =
    ZeroDivisionError      \<comment> \<open>Python float division by zero\<close>
  | EmptyReduction         \<comment> \<open>\<^verbatim>\<open>ValueError\<close>: \<^verbatim>\<open>np.min\<close> of a zero-size array\<close>
  | NegativeSamples        \<comment> \<open>\<^verbatim>\<open>ValueError\<close>: \<^verbatim>\<open>np.linspace\<close> with a negative number of samples\<close>
  | IndexError             \<comment> \<open>boolean index of the wrong length, or a column of a one-dimensional array\<close>
  | NoValidData            \<comment> \<open>\<^verbatim>\<open>ValueError("No valid flux values for normalization")\<close>\<close>
  | InvalidNormalization   \<comment> \<open>\<^verbatim>\<open>ValueError("Unknown normalization method: ...")\<close>\<close>
  | InvalidCycleCount      \<comment> \<open>\<^verbatim>\<open>ValueError("num_cycles must be 1, 2, or 3, got ...")\<close>\<close>
  | FileNotFoundError      \<comment> \<open>\<^verbatim>\<open>pd.read_csv\<close> on a path that does not exist\<close>
  | EmptyDataError         \<comment> \<open>\<^verbatim>\<open>pd.read_csv\<close> on a file without data\<close>
  | NoObjectsToConcatenate \<comment> \<open>\<^verbatim>\<open>ValueError\<close>: \<^verbatim>\<open>pd.concat\<close> of an empty list\<close>
  | DuplicateGid           \<comment> \<open>a catalog lookup that yields a frame of several rows\<close>

section \<open>Phase folding\<close>

text \<open>
  \<^verbatim>\<open>np.min\<close>: raises on an empty array and propagates NaN.
\<close>

definition fmin2 :: "npfloat \<Rightarrow> npfloat \<Rightarrow> npfloat" where
  "fmin2 a b = (if a = NaN \<or> b = NaN then NaN else if fless b a then b else a)"

fun np_min :: "npfloat list \<Rightarrow> error + npfloat" where
  "np_min [] = Inl EmptyReduction"
| "np_min (x # xs) = Inr (foldl fmin2 x xs)"

text \<open>
  The scalars \<^verbatim>\<open>period\<close> and \<^verbatim>\<open>period_derivative\<close> are either Python numbers (the
  defaults, a literal of the caller) or \<^verbatim>\<open>numpy.float64\<close> values (a cell of the
  catalog). The difference shows in \<^verbatim>\<open>0.5 * period_derivative / period\<close>: between two
  Python numbers a zero divisor raises \<^verbatim>\<open>ZeroDivisionError\<close>, while numpy's division
  takes over as soon as one operand is a \<^verbatim>\<open>numpy.float64\<close>.
\<close>

datatype pyscalar = PyFloat npfloat | NpFloat64 npfloat

fun pyval :: "pyscalar \<Rightarrow> npfloat" where
  "pyval (PyFloat x) = x"
| "pyval (NpFloat64 x) = x"

fun scalar_mul :: "real \<Rightarrow> pyscalar \<Rightarrow> pyscalar" where
  "scalar_mul c (PyFloat x) = PyFloat (fmul (Fin c) x)"
| "scalar_mul c (NpFloat64 x) = NpFloat64 (fmul (Fin c) x)"

fun scalar_truediv :: "pyscalar \<Rightarrow> pyscalar \<Rightarrow> error + npfloat" where
  "scalar_truediv (PyFloat x) (PyFloat y) =
     (if y = Fin 0 then Inl ZeroDivisionError else Inr (fdiv x y))"
| "scalar_truediv a b = Inr (fdiv (pyval a) (pyval b))"

definition phase_fold ::
  "npfloat list \<Rightarrow> pyscalar \<Rightarrow> pyscalar \<Rightarrow> npfloat option \<Rightarrow> error + npfloat list" where
  "phase_fold time period period_derivative reference_epoch =
     (case (case reference_epoch of None \<Rightarrow> np_min time | Some r \<Rightarrow> Inr r) of
        Inl e \<Rightarrow> Inl e
      | Inr r \<Rightarrow>
          (let dt = map (\<lambda>t. fsub t r) time in
           case scalar_truediv (scalar_mul (1/2) period_derivative) period of
             Inl e \<Rightarrow> Inl e
           | Inr k \<Rightarrow>
               Inr (map (\<lambda>d. fdiv (fmod (fsub d (fmul k (fmul d d))) (pyval period))
                                  (pyval period)) dt)))"

section \<open>Phase binning\<close>

text \<open>
  \<^verbatim>\<open>np.linspace(0, 1, num)\<close>: \<^verbatim>\<open>num\<close> evenly spaced samples from 0 to 1, both
  included. A negative \<^verbatim>\<open>num\<close> raises, \<^verbatim>\<open>num = 0\<close> gives the empty array and
  \<^verbatim>\<open>num = 1\<close> the single sample 0.
\<close>

definition np_linspace01 :: "int \<Rightarrow> error + npfloat list" where
  "np_linspace01 num =
     (if num < 0 then Inl NegativeSamples
      else if num = 1 then Inr [Fin 0]
      else Inr (map (\<lambda>i. Fin (real i / real (nat num - 1))) [0..<nat num]))"

text \<open>
  \<^verbatim>\<open>a[mask]\<close> for a boolean array \<^verbatim>\<open>mask\<close> (written \<open>msk\<close> below): the
  entries of \<^verbatim>\<open>a\<close> where the mask is true; a mask of another length raises
  \<^verbatim>\<open>IndexError\<close>.
\<close>

definition bool_index :: "'a list \<Rightarrow> bool list \<Rightarrow> error + 'a list" where
  "bool_index a msk =
     (if length msk = length a then Inr (map fst (filter snd (zip a msk)))
      else Inl IndexError)"

text \<open>A row \<^verbatim>\<open>[phase_center, flux, flux_err]\<close> of the array \<^verbatim>\<open>binned_lc\<close>.\<close>

type_synonym bin = "npfloat \<times> npfloat \<times> npfloat"

definition col0 :: "bin \<Rightarrow> npfloat" where "col0 b = fst b"
definition col1 :: "bin \<Rightarrow> npfloat" where "col1 b = fst (snd b)"
definition col2 :: "bin \<Rightarrow> npfloat" where "col2 b = snd (snd b)"

text \<open>
  The mask of one bin (line 115) and the body of the loop over the bins (lines 111 to 142),
  for the bin with index \<^verbatim>\<open>i\<close>. The reads \<^verbatim>\<open>bin_edges[i]\<close> and
  \<^verbatim>\<open>bin_edges[i + 1]\<close> are in range, \<^verbatim>\<open>bin_centers\<close> being one shorter than
  \<^verbatim>\<open>bin_edges\<close>.
\<close>

definition bin_mask :: "npfloat list \<Rightarrow> npfloat \<Rightarrow> npfloat \<Rightarrow> bool list" where
  "bin_mask phases phase_min phase_max =
     map (\<lambda>p. fle phase_min p \<and> fless p phase_max) phases"

definition np_any :: "bool list \<Rightarrow> bool" where
  "np_any msk = list_ex (\<lambda>b. b) msk"

definition bin_body ::
  "npfloat list \<Rightarrow> npfloat list \<Rightarrow> npfloat list \<Rightarrow> npfloat list \<Rightarrow> nat \<Rightarrow> npfloat
     \<Rightarrow> error + bin" where
  "bin_body phases flux flux_err bin_edges i phase_center =
     (let phase_min = bin_edges ! i;
          phase_max = bin_edges ! (i + 1);
          msk = bin_mask phases phase_min phase_max
      in if \<not> np_any msk then Inr (phase_center, NaN, NaN)
         else
          (case bool_index flux msk of Inl e \<Rightarrow> Inl e | Inr bin_flux \<Rightarrow>
           case bool_index flux_err msk of Inl e \<Rightarrow> Inl e | Inr bin_flux_err \<Rightarrow>
             (let valid = map2 (\<lambda>e f. fless (Fin 0) e \<and> isfinite e \<and> isfinite f)
                            bin_flux_err bin_flux
              in if \<not> np_any valid then Inr (phase_center, NaN, NaN)
                 else
                  (case bool_index bin_flux valid of Inl e \<Rightarrow> Inl e | Inr bin_flux' \<Rightarrow>
                   case bool_index bin_flux_err valid of Inl e \<Rightarrow> Inl e | Inr bin_flux_err' \<Rightarrow>
                     (let weights = map (\<lambda>e. fdiv (Fin 1) (fmul e e)) bin_flux_err';
                          weighted_mean =
                            fdiv (np_sum (map2 fmul bin_flux' weights)) (np_sum weights);
                          weighted_error = fsqrt (fdiv (Fin 1) (np_sum weights))
                      in Inr (phase_center, weighted_mean, weighted_error))))))"

fun bin_loop ::
  "npfloat list \<Rightarrow> npfloat list \<Rightarrow> npfloat list \<Rightarrow> npfloat list \<Rightarrow> (nat \<times> npfloat) list
     \<Rightarrow> error + bin list" where
  "bin_loop phases flux flux_err bin_edges [] = Inr []"
| "bin_loop phases flux flux_err bin_edges ((i, phase_center) # rest) =
     (case bin_body phases flux flux_err bin_edges i phase_center of
        Inl e \<Rightarrow> Inl e
      | Inr b \<Rightarrow>
          (case bin_loop phases flux flux_err bin_edges rest of
             Inl e \<Rightarrow> Inl e
           | Inr bs \<Rightarrow> Inr (b # bs)))"

text \<open>Lines 104 to 144: the bin edges, the bin centres and the loop.\<close>

definition bin_centers_of :: "npfloat list \<Rightarrow> npfloat list" where
  "bin_centers_of bin_edges =
     map2 (\<lambda>a b. fmul (Fin (1/2)) (fadd a b)) (butlast bin_edges) (tl bin_edges)"

definition bin_phases ::
  "npfloat list \<Rightarrow> npfloat list \<Rightarrow> npfloat list \<Rightarrow> int \<Rightarrow> error + bin list" where
  "bin_phases phases flux flux_err num_bins =
     (case np_linspace01 (num_bins + 1) of
        Inl e \<Rightarrow> Inl e
      | Inr bin_edges \<Rightarrow>
          (let bin_centers = bin_centers_of bin_edges
           in bin_loop phases flux flux_err bin_edges
                (zip [0..<length bin_centers] bin_centers)))"

subsection \<open>Normalization\<close>

text \<open>
  The argument \<^verbatim>\<open>normalization\<close> is \<^verbatim>\<open>False\<close> or a string; the empty string is
  falsy as \<^verbatim>\<open>False\<close> is. \<^verbatim>\<open>str.lower\<close> is modelled on ASCII letters.
\<close>

datatype normalization = NormFalse | NormStr string

fun truthy :: "normalization \<Rightarrow> bool" where
  "truthy NormFalse = False"
| "truthy (NormStr s) = (s \<noteq> [])"

definition lower_char :: "char \<Rightarrow> char" where
  "lower_char c =
     (let n = (of_char c :: nat) in if 65 \<le> n \<and> n \<le> 90 then char_of (n + 32) else c)"

definition lower :: "string \<Rightarrow> string" where
  "lower s = map lower_char s"

text \<open>
  The entries of \<^verbatim>\<open>valid_flux\<close> are finite, so the four statistics are computed on
  their real values.
\<close>

definition finite_values :: "npfloat list \<Rightarrow> real list" where
  "finite_values xs = List.map_filter (\<lambda>x. case x of Fin r \<Rightarrow> Some r | _ \<Rightarrow> None) xs"

definition np_median :: "real list \<Rightarrow> real" where
  "np_median xs =
     (let s = sort xs; n = length s
      in if odd n then s ! (n div 2) else (s ! (n div 2 - 1) + s ! (n div 2)) / 2)"

definition np_mean :: "real list \<Rightarrow> real" where
  "np_mean xs = sum_list xs / real (length xs)"

definition norm_methods :: "(string \<times> (real list \<Rightarrow> real)) list" where
  "norm_methods =
     [(''median'', np_median),
      (''min'', \<lambda>xs. Min (set xs)),
      (''max'', \<lambda>xs. Max (set xs)),
      (''mean'', np_mean)]"

text \<open>
  Lines 147 to 166. The column read \<^verbatim>\<open>binned_lc[:, 1]\<close> raises \<^verbatim>\<open>IndexError\<close> when
  no row was appended, the array being one-dimensional then.
\<close>

definition normalize_bins :: "bin list \<Rightarrow> normalization \<Rightarrow> error + bin list" where
  "normalize_bins binned_lc normalization =
     (case normalization of
        NormFalse \<Rightarrow> Inr binned_lc
      | NormStr s \<Rightarrow>
          if s = [] then Inr binned_lc
          else if binned_lc = [] then Inl IndexError
          else
            (let valid_flux = finite_values (map col1 binned_lc)
             in if length valid_flux = 0 then Inl NoValidData
                else
                  (case map_of norm_methods (lower s) of
                     None \<Rightarrow> Inl InvalidNormalization
                   | Some norm_fn \<Rightarrow>
                       (let norm_factor = Fin (norm_fn valid_flux)
                        in Inr (map (\<lambda>b. (col0 b, fdiv (col1 b) norm_factor,
                                            fdiv (col2 b) norm_factor)) binned_lc)))))"

subsection \<open>Cycle replication and the result\<close>

record binned_curve =
  phase_col :: "npfloat list"
  flux_col :: "npfloat list"
  flux_err_col :: "npfloat list"

definition shift_phase :: "(npfloat \<Rightarrow> npfloat) \<Rightarrow> bin list \<Rightarrow> bin list" where
  "shift_phase f binned_lc = map (\<lambda>b. (f (col0 b), col1 b, col2 b)) binned_lc"

text \<open>
  Lines 169 to 189. The branch for another \<^verbatim>\<open>num_cycles\<close> raises before any column is
  read; the other branches read a column and so raise \<^verbatim>\<open>IndexError\<close> on an array
  without rows.
\<close>

definition replicate_cycles :: "bin list \<Rightarrow> int \<Rightarrow> error + binned_curve" where
  "replicate_cycles binned_lc num_cycles =
     (if num_cycles \<noteq> 1 \<and> num_cycles \<noteq> 2 \<and> num_cycles \<noteq> 3 then Inl InvalidCycleCount
      else if binned_lc = [] then Inl IndexError
      else
        (let cycle_prev = shift_phase (\<lambda>p. fsub p (Fin 1)) binned_lc;
             cycle_next = shift_phase (\<lambda>p. fadd p (Fin 1)) binned_lc;
             stacked = (if num_cycles = 1 then binned_lc
                        else if num_cycles = 2 then cycle_prev @ binned_lc
                        else cycle_prev @ binned_lc @ cycle_next)
         in Inr \<lparr> phase_col = map col0 stacked,
                  flux_col = map col1 stacked,
                  flux_err_col = map col2 stacked \<rparr>))"

definition bin_phase_folded_data ::
  "npfloat list \<Rightarrow> npfloat list \<Rightarrow> npfloat list \<Rightarrow> pyscalar \<Rightarrow> pyscalar \<Rightarrow> npfloat option
     \<Rightarrow> int \<Rightarrow> int \<Rightarrow> normalization \<Rightarrow> error + binned_curve" where
  "bin_phase_folded_data time flux flux_err period period_derivative reference_epoch
       num_bins num_cycles normalization =
     (case phase_fold time period period_derivative reference_epoch of
        Inl e \<Rightarrow> Inl e
      | Inr phases \<Rightarrow>
          (case bin_phases phases flux flux_err num_bins of
             Inl e \<Rightarrow> Inl e
           | Inr binned_lc \<Rightarrow>
               (case normalize_bins binned_lc normalization of
                  Inl e \<Rightarrow> Inl e
                | Inr binned_lc' \<Rightarrow> replicate_cycles binned_lc' num_cycles)))"

section \<open>The period catalog\<close>

text \<open>
  A row of a \<^verbatim>\<open>.result\<close> file, with the columns of \<^verbatim>\<open>COLUMNS\<close>. The files are
  taken as parsed: \<^verbatim>\<open>result_files\<close> is the list of their contents in the order of
  \<^verbatim>\<open>sorted(bls_path().glob("*.result"))\<close>, the host being one that
  \<^verbatim>\<open>bls_path\<close> knows.
\<close>

record bls_row =
  gid :: int
  pow :: npfloat
  snr :: npfloat
  wid :: npfloat
  per_day :: npfloat
  per_min :: npfloat
  q :: npfloat
  phi0 :: npfloat
  dphi :: npfloat
  epo :: npfloat

type_synonym catalog = "bls_row list"

text \<open>
  \<^verbatim>\<open>pd.read_csv\<close> raises on a file without data, and \<^verbatim>\<open>pd.concat\<close> on an empty
  list of frames.
\<close>

fun read_result_files :: "bls_row list list \<Rightarrow> error + bls_row list list" where
  "read_result_files [] = Inr []"
| "read_result_files (f # fs) =
     (if f = [] then Inl EmptyDataError
      else case read_result_files fs of Inl e \<Rightarrow> Inl e | Inr dfs \<Rightarrow> Inr (f # dfs))"

definition load_catalog :: "bls_row list list \<Rightarrow> error + catalog" where
  "load_catalog result_files =
     (case read_result_files result_files of
        Inl e \<Rightarrow> Inl e
      | Inr dfs \<Rightarrow>
          if dfs = [] then Inl NoObjectsToConcatenate
          else Inr (map (\<lambda>r. r\<lparr>per_day := fdiv (per_min r) (Fin 1440)\<rparr>) (concat dfs)))"

text \<open>
  The module-level cache \<^verbatim>\<open>_catalog\<close> is a state that every function of \<^verbatim>\<open>bls.py\<close>
  takes and returns; an exception leaves it as it was.
\<close>

definition get_catalog ::
  "bls_row list list \<Rightarrow> catalog option \<Rightarrow> (error + catalog) \<times> catalog option" where
  "get_catalog result_files cache =
     (case cache of
        Some df \<Rightarrow> (Inr df, cache)
      | None \<Rightarrow>
          (case load_catalog result_files of
             Inl e \<Rightarrow> (Inl e, None)
           | Inr df \<Rightarrow> (Inr df, Some df)))"

text \<open>
  \<^verbatim>\<open>df.loc[source_id]\<close> is a \<^verbatim>\<open>Series\<close> when one row carries the label and a
  \<^verbatim>\<open>DataFrame\<close> of the rows when several do.
\<close>

datatype loc_result = Series bls_row | DataFrame "bls_row list"

definition df_loc :: "catalog \<Rightarrow> int \<Rightarrow> loc_result" where
  "df_loc df source_id =
     (case filter (\<lambda>r. gid r = source_id) df of
        [r] \<Rightarrow> Series r
      | rs \<Rightarrow> DataFrame rs)"

definition get_bls_stats ::
  "bls_row list list \<Rightarrow> catalog option \<Rightarrow> int
     \<Rightarrow> (error + loc_result option) \<times> catalog option" where
  "get_bls_stats result_files cache source_id =
     (case get_catalog result_files cache of
        (Inl e, cache') \<Rightarrow> (Inl e, cache')
      | (Inr df, cache') \<Rightarrow>
          if source_id \<in> set (map gid df) then (Inr (Some (df_loc df source_id)), cache')
          else (Inr None, cache'))"

section \<open>Reading and reducing a light curve\<close>

text \<open>
  A row of a light-curve file, with the columns that \<^verbatim>\<open>read_lightcurve\<close> reads, and
  the environment of a call: the light-curve file of each source (\<open>None\<close> when there is
  no file, the empty list when it holds no data row), the \<^verbatim>\<open>.result\<close> files, and the
  barycentric conversion \<^verbatim>\<open>bjd_convert\<close> of astropy, a parameter of the model.
\<close>

record lc_row =
  mjd :: npfloat
  ujy :: npfloat
  dujy :: npfloat
  filter_name :: string
  row_ra :: npfloat
  row_dec :: npfloat

record environment =
  lc_files :: "int \<Rightarrow> lc_row list option"
  result_files :: "bls_row list list"
  bjd_convert :: "npfloat list \<Rightarrow> npfloat \<Rightarrow> npfloat \<Rightarrow> npfloat list"

record lc_data =
  lc_time :: "npfloat list"
  lc_flux :: "npfloat list"
  lc_flux_err :: "npfloat list"
  lc_filter :: "string list"
  lc_ra :: npfloat
  lc_dec :: npfloat

text \<open>Lines 23 to 42 of \<^verbatim>\<open>io.py\<close>, once \<^verbatim>\<open>pd.read_csv\<close> has returned.\<close>

definition lightcurve_of :: "environment \<Rightarrow> lc_row \<Rightarrow> lc_row list \<Rightarrow> lc_data" where
  "lightcurve_of env r rs =
     (let ra = row_ra r;
          dec = row_dec r;
          t_mjd = map mjd (r # rs);
          t_mid_mjd = map (\<lambda>t. fadd t (Fin (15 / 86400))) t_mjd;
          t_bjd = bjd_convert env t_mid_mjd ra dec
      in \<lparr> lc_time = t_bjd, lc_flux = map ujy (r # rs), lc_flux_err = map dujy (r # rs),
           lc_filter = map filter_name (r # rs), lc_ra = ra, lc_dec = dec \<rparr>)"

text \<open>
  \<^verbatim>\<open>read_lightcurve\<close> of \<^verbatim>\<open>io.py\<close>: the exceptions of \<^verbatim>\<open>pd.read_csv\<close> leave
  the function, which never returns \<^verbatim>\<open>None\<close>.
\<close>

definition read_lightcurve :: "environment \<Rightarrow> int \<Rightarrow> error + lc_data option" where
  "read_lightcurve env source_id =
     (case lc_files env source_id of
        None \<Rightarrow> Inl FileNotFoundError
      | Some [] \<Rightarrow> Inl EmptyDataError
      | Some (r # rs) \<Rightarrow> Inr (Some (lightcurve_of env r rs)))"

text \<open>
  \<^verbatim>\<open>read_lightcurve\<close> of \<^verbatim>\<open>.ipynb_checkpoints/io-checkpoint.py\<close>: both exceptions
  are caught and \<^verbatim>\<open>None\<close> is returned.
\<close>

definition read_lightcurve_checkpoint :: "environment \<Rightarrow> int \<Rightarrow> error + lc_data option" where
  "read_lightcurve_checkpoint env source_id =
     (case lc_files env source_id of
        None \<Rightarrow> Inr None
      | Some [] \<Rightarrow> Inr None
      | Some (r # rs) \<Rightarrow> Inr (Some (lightcurve_of env r rs)))"

text \<open>
  \<^verbatim>\<open>read_bin_lightcurve\<close> of \<^verbatim>\<open>io.py\<close>. The period is a cell of the catalog, a
  \<^verbatim>\<open>numpy.float64\<close>, and \<^verbatim>\<open>period_derivative\<close> keeps its default 0. A lookup that
  yields several rows makes the period a column; that case is outside the model and is the
  error \<open>DuplicateGid\<close>.
\<close>

definition read_bin_lightcurve ::
  "environment \<Rightarrow> catalog option \<Rightarrow> int \<Rightarrow> int \<Rightarrow> int \<Rightarrow> normalization
     \<Rightarrow> (error + binned_curve option) \<times> catalog option" where
  "read_bin_lightcurve env cache source_id num_bins num_cycles normalization =
     (case read_lightcurve env source_id of
        Inl e \<Rightarrow> (Inl e, cache)
      | Inr None \<Rightarrow> (Inr None, cache)
      | Inr (Some lc) \<Rightarrow>
          (case get_bls_stats (result_files env) cache source_id of
             (Inl e, cache') \<Rightarrow> (Inl e, cache')
           | (Inr None, cache') \<Rightarrow> (Inr None, cache')
           | (Inr (Some (DataFrame rs)), cache') \<Rightarrow> (Inl DuplicateGid, cache')
           | (Inr (Some (Series bls_data)), cache') \<Rightarrow>
               (case bin_phase_folded_data (lc_time lc) (lc_flux lc) (lc_flux_err lc)
                       (NpFloat64 (per_day bls_data)) (PyFloat (Fin 0)) (Some (epo bls_data))
                       num_bins num_cycles normalization of
                  Inl e \<Rightarrow> (Inl e, cache')
                | Inr binned_data \<Rightarrow> (Inr (Some binned_data), cache'))))"

text \<open>
  \<^verbatim>\<open>read_bin_lightcurve\<close> of \<^verbatim>\<open>.ipynb_checkpoints/io-checkpoint.py\<close>, which takes
  an optional period and epoch, lets a catalog entry override them, and bins the bands
  \<^verbatim>\<open>'c'\<close> and \<^verbatim>\<open>'o'\<close> one after the other. The result is the dictionary
  \<^verbatim>\<open>{"c": binned_c, "o": binned_o}\<close>, as the list of its items.
\<close>

definition read_bin_lightcurve_checkpoint ::
  "environment \<Rightarrow> catalog option \<Rightarrow> int \<Rightarrow> int \<Rightarrow> int \<Rightarrow> normalization
     \<Rightarrow> pyscalar option \<Rightarrow> npfloat option
     \<Rightarrow> (error + (string \<times> binned_curve) list option) \<times> catalog option" where
  "read_bin_lightcurve_checkpoint env cache source_id num_bins num_cycles normalization
       period reference_epoch =
     (case read_lightcurve_checkpoint env source_id of
        Inl e \<Rightarrow> (Inl e, cache)
      | Inr None \<Rightarrow> (Inr None, cache)
      | Inr (Some lc) \<Rightarrow>
          (case get_bls_stats (result_files env) cache source_id of
             (Inl e, cache') \<Rightarrow> (Inl e, cache')
           | (Inr (Some (DataFrame rs)), cache') \<Rightarrow> (Inl DuplicateGid, cache')
           | (Inr bls, cache') \<Rightarrow>
               (case (case bls of
                        Some (Series bls_data) \<Rightarrow>
                          Some (NpFloat64 (per_day bls_data), Some (epo bls_data))
                      | _ \<Rightarrow> (case period of None \<Rightarrow> None
                                | Some p \<Rightarrow> Some (p, reference_epoch))) of
                  None \<Rightarrow> (Inr None, cache')
                | Some (period', reference_epoch') \<Rightarrow>
                    (let c_mask = map (\<lambda>f. f = ''c'') (lc_filter lc);
                         o_mask = map (\<lambda>f. f = ''o'') (lc_filter lc);
                         bin_band = (\<lambda>msk.
                           case bool_index (lc_time lc) msk of Inl e \<Rightarrow> Inl e | Inr t \<Rightarrow>
                           case bool_index (lc_flux lc) msk of Inl e \<Rightarrow> Inl e | Inr f \<Rightarrow>
                           case bool_index (lc_flux_err lc) msk of Inl e \<Rightarrow> Inl e | Inr fe \<Rightarrow>
                             bin_phase_folded_data t f fe period' (PyFloat (Fin 0))
                               reference_epoch' num_bins num_cycles normalization)
                     in case bin_band c_mask of
                          Inl e \<Rightarrow> (Inl e, cache')
                        | Inr binned_c \<Rightarrow>
                            (case bin_band o_mask of
                               Inl e \<Rightarrow> (Inl e, cache')
                             | Inr binned_o \<Rightarrow>
                                 (Inr (Some [(''c'', binned_c), (''o'', binned_o)]),
                                  cache'))))))"

section \<open>The quantities that the specification names\<close>

text \<open>
  These definitions follow the words of the specification, over the reals, and are what
  the code is compared with. The valid observations of the bin \<open>[lo, hi)\<close> are the pairs
  of flux and error of the observations whose phase lies in the bin, whose error is finite
  and positive and whose flux is finite.
\<close>

definition valid_pair ::
  "real \<Rightarrow> real \<Rightarrow> npfloat \<times> npfloat \<times> npfloat \<Rightarrow> (real \<times> real) option" where
  "valid_pair lo hi ob =
     (case ob of
        (Fin x, Fin fr, Fin er) \<Rightarrow>
          if lo \<le> x \<and> x < hi \<and> 0 < er then Some (fr, er) else None
      | _ \<Rightarrow> None)"

definition valid_obs ::
  "npfloat list \<Rightarrow> npfloat list \<Rightarrow> npfloat list \<Rightarrow> real \<Rightarrow> real \<Rightarrow> (real \<times> real) list" where
  "valid_obs phases flux flux_err lo hi =
     List.map_filter (valid_pair lo hi) (zip phases (zip flux flux_err))"

text \<open>
  The inverse-variance weighted mean \<open>\<Sum> f\<^sub>i w\<^sub>i / \<Sum> w\<^sub>i\<close> with \<open>w\<^sub>i = 1 / e\<^sub>i\<^sup>2\<close>, and its
  error \<open>sqrt (1 / \<Sum> w\<^sub>i)\<close>.
\<close>

definition sum_weights :: "(real \<times> real) list \<Rightarrow> real" where
  "sum_weights vs = (\<Sum>(f, e) \<leftarrow> vs. 1 / e\<^sup>2)"

definition weighted_flux :: "(real \<times> real) list \<Rightarrow> real" where
  "weighted_flux vs = (\<Sum>(f, e) \<leftarrow> vs. f * (1 / e\<^sup>2)) / sum_weights vs"

definition weighted_err :: "(real \<times> real) list \<Rightarrow> real" where
  "weighted_err vs = sqrt (1 / sum_weights vs)"

text \<open>The edges and the midpoint of bin \<open>i\<close> of the \<open>n\<close> equal bins of \<open>[0, 1)\<close>.\<close>

definition bin_lo :: "nat \<Rightarrow> nat \<Rightarrow> real" where
  "bin_lo n i = real i / real n"

definition bin_hi :: "nat \<Rightarrow> nat \<Rightarrow> real" where
  "bin_hi n i = real (i + 1) / real n"

definition bin_mid :: "nat \<Rightarrow> nat \<Rightarrow> real" where
  "bin_mid n i = (bin_lo n i + bin_hi n i) / 2"

text \<open>
  The row that the specification asks of a bin with the centre \<open>c\<close> and the valid
  observations \<open>vs\<close>.
\<close>

definition bin_result :: "npfloat \<Rightarrow> (real \<times> real) list \<Rightarrow> bin" where
  "bin_result c vs =
     (if vs = [] then (c, NaN, NaN) else (c, Fin (weighted_flux vs), Fin (weighted_err vs)))"

section \<open>The tests of the loop body on one observation\<close>

text \<open>
  The two masks and the weight of lines 115, 127 and 137, read on an observation
  \<open>(phase, flux, error)\<close>; the proofs go through them.
\<close>

definition in_phase_bin :: "npfloat \<Rightarrow> npfloat \<Rightarrow> npfloat \<times> npfloat \<times> npfloat \<Rightarrow> bool" where
  "in_phase_bin lo hi ob = (fle lo (fst ob) \<and> fless (fst ob) hi)"

definition is_valid :: "npfloat \<times> npfloat \<times> npfloat \<Rightarrow> bool" where
  "is_valid ob =
     (fless (Fin 0) (snd (snd ob)) \<and> isfinite (snd (snd ob)) \<and> isfinite (fst (snd ob)))"

definition weight_of :: "npfloat \<times> npfloat \<times> npfloat \<Rightarrow> npfloat" where
  "weight_of ob = fdiv (Fin 1) (fmul (snd (snd ob)) (snd (snd ob)))"

text \<open>The rows that a catalog lookup returned.\<close>

fun loc_rows :: "loc_result \<Rightarrow> bls_row list" where
  "loc_rows (Series r) = [r]"
| "loc_rows (DataFrame rs) = rs"

section \<open>Example data\<close>

text \<open>A catalog row whose stored \<^verbatim>\<open>per_day\<close> disagrees with its \<^verbatim>\<open>per_min\<close>.\<close>

definition example_row :: bls_row where
  "example_row = \<lparr> gid = 7, pow = Fin 1, snr = Fin 1, wid = Fin 1, per_day = Fin 99,
                    per_min = Fin 720, q = Fin 0, phi0 = Fin 0, dphi = Fin 0, epo = Fin 0 \<rparr>"


text \<open>
  An environment with one source, number 7, whose light curve has a single observation in
  the band \<^verbatim>\<open>'o'\<close> and whose catalog row is \<open>example_row\<close>; the barycentric conversion
  is the identity here.
\<close>

definition example_env :: environment where
  "example_env =
     \<lparr> lc_files = (\<lambda>s. if s = 7
                        then Some [\<lparr> mjd = Fin 0, ujy = Fin 10, dujy = Fin 1,
                                     filter_name = ''o'', row_ra = Fin 0, row_dec = Fin 0 \<rparr>]
                        else None),
       result_files = [[example_row]],
       bjd_convert = (\<lambda>ts ra dec. ts) \<rparr>"

section \<open>Properties of phase folding\<close>

subsection \<open>The remainder just below the period\<close>

lemma floor_log2_below_one:
  assumes "1/2 \<le> x" "x < 1"
  shows "\<lfloor>log 2 \<bar>x\<bar>\<rfloor> = - 1"
proof -
  from assms have x: "0 < x" "\<bar>x\<bar> = x" by simp_all
  have "2 powr (- 1) \<le> x" using assms(1) by (simp add: powr_minus)
  then have a: "- 1 \<le> log 2 x" using x(1) by (simp add: le_log_iff)
  have b: "log 2 x < 0" using assms(2) x(1) by simp
  from a b show ?thesis unfolding x(2) by (intro floor_unique) simp_all
qed

text \<open>The double nearest to \<open>1 - 2\<^sup>-\<^sup>6\<^sup>0\<close> is 1.\<close>

lemma round_just_below_one: "round_to_double (1 - 1 / 2 ^ 60) = 1"
proof -
  let ?x = "1 - 1 / 2 ^ 60 :: real"
  have e: "\<lfloor>log 2 \<bar>?x\<bar>\<rfloor> = - 1" by (rule floor_log2_below_one) simp_all
  have u: "pow2 (- 1 - 52) = 1 / 2 ^ 53"
    by (simp add: pow2_def)
  have q: "?x / (1 / 2 ^ 53) = 2 ^ 53 - 1 / 2 ^ 7" by simp
  have f: "\<lfloor>2 ^ 53 - 1 / 2 ^ 7 :: real\<rfloor> = 2 ^ 53 - 1"
    by (intro floor_unique) simp_all
  have r: "round_half_even (2 ^ 53 - 1 / 2 ^ 7) = 2 ^ 53"
    unfolding round_half_even_def f by (simp add: Let_def)
  have nz: "?x \<noteq> 0" by simp
  show ?thesis
    unfolding round_to_double_def Let_def e u q r using nz by simp
qed

lemma np_remainder_wraps_to_one: "np_remainder (- (1 / 2 ^ 60)) 1 = 1"
proof -
  have c: "\<lceil>- (1 / 2 ^ 60) :: real\<rceil> = 0" by (intro ceiling_unique) simp_all
  have m: "c_fmod (- (1 / 2 ^ 60)) 1 = - (1 / 2 ^ 60)"
    using c by (simp add: c_fmod_def)
  show ?thesis
    unfolding np_remainder_def Let_def m using round_just_below_one by simp
qed

lemma phase_fold_at_epoch:
  assumes "pyval period = Fin P" "P \<noteq> 0" "pyval period_derivative = Fin 0"
  shows "phase_fold [Fin r] period period_derivative (Some (Fin r)) = Inr [Fin 0]"
    and "phase_fold [Fin r] period period_derivative None = Inr [Fin 0]"
  using assms
  by (cases period; cases period_derivative;
      simp add: phase_fold_def fsub_def fmin2_def np_remainder_def c_fmod_def)+

subsection \<open>A phase equal to 1 out of \<open>phase_fold\<close>\<close>

text \<open>
  C1 does not hold for the code. The time \<open>-2\<^sup>-\<^sup>6\<^sup>0\<close>, a double, lies just before the
  epoch 0. With the period 1 and the derivative 0 every operation of line 62 is exact but
  the addition inside \<^verbatim>\<open>%\<close>: C's \<^verbatim>\<open>fmod\<close> returns \<open>-2\<^sup>-\<^sup>6\<^sup>0\<close>, and
  \<open>-2\<^sup>-\<^sup>6\<^sup>0 + 1\<close> rounds to 1. The phase returned is exactly 1, outside \<open>[0, 1)\<close>,
  the range that the docstring of \<^verbatim>\<open>phase_fold\<close> promises.
\<close>

theorem phase_fold_reaches_one:
  "phase_fold [Fin (- (1 / 2 ^ 60))] (PyFloat (Fin 1)) (PyFloat (Fin 0)) (Some (Fin 0))
     = Inr [Fin 1]"
proof -
  have "fsub (Fin (- (1 / 2 ^ 60))) (Fin 0) = Fin (- (1 / 2 ^ 60))"
    by (simp add: fsub_def)
  moreover have "fdiv (fmod (Fin (- (1 / 2 ^ 60))) (Fin 1)) (Fin 1) = Fin 1"
    using np_remainder_wraps_to_one by simp
  ultimately show ?thesis
    by (simp add: phase_fold_def fsub_def)
qed

subsection \<open>A period that is not positive\<close>


text \<open>
  A zero period that is a \<^verbatim>\<open>numpy.float64\<close>, as a cell of the catalog is, raises
  nothing either: every phase is NaN.
\<close>

lemma phase_fold_numpy_zero_period:
  "phase_fold time (NpFloat64 (Fin 0)) period_derivative (Some r)
     = Inr (map (\<lambda>t. NaN) time)"
proof -
  have "fdiv (fmod x (Fin 0)) (Fin 0) = NaN" for x by (cases x) auto
  then show ?thesis
    by (cases period_derivative) (simp_all add: phase_fold_def)
qed



section \<open>Properties of the binning\<close>

subsection \<open>The loop body computes the weighted mean of the valid observations\<close>

lemma zip3_columns:
  assumes "length phases = length flux" "length flux = length flux_err"
  shows "phases = map fst (zip phases (zip flux flux_err))
       \<and> flux = map (\<lambda>ob. fst (snd ob)) (zip phases (zip flux flux_err))
       \<and> flux_err = map (\<lambda>ob. snd (snd ob)) (zip phases (zip flux flux_err))"
  using assms by (induction phases flux flux_err rule: list_induct3) auto

lemma bool_index_map: "bool_index (map g xs) (map h xs) = Inr (map g (filter h xs))"
proof -
  have "map fst (filter snd (zip (map g xs) (map h xs))) = map g (filter h xs)"
    by (induction xs) auto
  then show ?thesis by (simp add: bool_index_def)
qed

lemma np_any_map: "np_any (map h xs) = (filter h xs \<noteq> [])"
  by (induction xs) (auto simp: np_any_def)

lemma map2_maps: "map2 f (map g xs) (map h xs) = map (\<lambda>x. f (g x) (h x)) xs"
  by (induction xs) auto

lemma bin_body_obs:
  fixes obs :: "(npfloat \<times> npfloat \<times> npfloat) list" and edges :: "npfloat list" and i :: nat
  defines "val \<equiv> filter is_valid (filter (in_phase_bin (edges ! i) (edges ! (i + 1))) obs)"
  shows "bin_body (map fst obs) (map (\<lambda>ob. fst (snd ob)) obs) (map (\<lambda>ob. snd (snd ob)) obs)
           edges i c =
         Inr (if val = [] then (c, NaN, NaN)
              else (c, fdiv (np_sum (map (\<lambda>ob. fmul (fst (snd ob)) (weight_of ob)) val))
                           (np_sum (map weight_of val)),
                       fsqrt (fdiv (Fin 1) (np_sum (map weight_of val)))))"
proof -
  let ?P = "in_phase_bin (edges ! i) (edges ! (i + 1))"
  let ?sel = "filter ?P obs"
  have m: "bin_mask (map fst obs) (edges ! i) (edges ! (i + 1)) = map ?P obs"
    by (simp add: bin_mask_def in_phase_bin_def)
  have v: "map2 (\<lambda>e f. fless (Fin 0) e \<and> isfinite e \<and> isfinite f)
             (map (\<lambda>ob. snd (snd ob)) ?sel) (map (\<lambda>ob. fst (snd ob)) ?sel) = map is_valid ?sel"
    unfolding map2_maps is_valid_def ..
  have w: "map2 fmul (map (\<lambda>ob. fst (snd ob)) xs) (map weight_of xs)
           = map (\<lambda>ob. fmul (fst (snd ob)) (weight_of ob)) xs" for xs
    by (rule map2_maps)
  have w': "map (\<lambda>e. fdiv (Fin 1) (fmul e e)) (map (\<lambda>ob. snd (snd ob)) xs) = map weight_of xs" for xs
    by (simp add: weight_of_def)
  have step1: "bin_body (map fst obs) (map (\<lambda>ob. fst (snd ob)) obs) (map (\<lambda>ob. snd (snd ob)) obs)
           edges i c =
      (if \<not> np_any (map ?P obs) then Inr (c, NaN, NaN)
       else if \<not> np_any (map is_valid ?sel) then Inr (c, NaN, NaN)
       else Inr (c, fdiv (np_sum (map (\<lambda>ob. fmul (fst (snd ob)) (weight_of ob)) val))
                           (np_sum (map weight_of val)),
                       fsqrt (fdiv (Fin 1) (np_sum (map weight_of val)))))"
    by (simp only: bin_body_def Let_def m bool_index_map sum.case v w w' val_def)
  show ?thesis
    unfolding step1 np_any_map
    by (auto simp: val_def simp del: filter_filter)
qed


lemma valid_rel:
  "map snd (filter is_valid (filter (in_phase_bin (Fin lo) (Fin hi)) obs))
     = map (\<lambda>(f, e). (Fin f, Fin e)) (List.map_filter (valid_pair lo hi) obs)"
proof (induction obs)
  case Nil
  show ?case by (simp add: map_filter_simps)
next
  case (Cons ob obs)
  obtain p f e where ob: "ob = (p, f, e)" by (cases ob)
  show ?case
    using Cons.IH
    by (cases p; cases f; cases e)
       (simp_all add: ob map_filter_simps valid_pair_def is_valid_def in_phase_bin_def)
qed

lemma valid_obs_pos: "(f, e) \<in> set (valid_obs phases flux flux_err lo hi) \<Longrightarrow> 0 < e"
  by (auto simp: valid_obs_def map_filter_def valid_pair_def split: npfloat.splits if_splits)

lemma foldl_fadd_fin: "foldl fadd (Fin a) (map Fin xs) = Fin (a + sum_list xs)"
  by (induction xs arbitrary: a) (simp_all add: add.assoc)

lemma np_sum_fin: "np_sum (map Fin xs) = Fin (sum_list xs)"
  by (simp add: np_sum_def foldl_fadd_fin)

lemma sum_weights_pos:
  assumes "vs \<noteq> []" "\<forall>(f, e) \<in> set vs. 0 < e"
  shows "0 < sum_weights vs"
proof -
  from assms obtain f e vs' where vs: "vs = (f, e) # vs'" by (cases vs) auto
  with assms have e: "0 < e" by simp
  have "0 < 1 / e\<^sup>2" using e by simp
  moreover have "0 \<le> (\<Sum>(f, e) \<leftarrow> vs'. 1 / e\<^sup>2)"
    by (rule sum_list_nonneg) auto
  ultimately have "0 < 1 / e\<^sup>2 + (\<Sum>(f, e) \<leftarrow> vs'. 1 / e\<^sup>2)"
    by (rule add_pos_nonneg)
  then show ?thesis by (simp add: sum_weights_def vs)
qed

lemma weights_of_valid:
  assumes rel: "map snd val = map (\<lambda>(f, e). (Fin f, Fin e)) vs"
    and pos: "\<forall>(f, e) \<in> set vs. 0 < e"
  shows "map weight_of val = map Fin (map (\<lambda>(f, e). 1 / e\<^sup>2) vs)"
    and "map (\<lambda>ob. fmul (fst (snd ob)) (weight_of ob)) val
           = map Fin (map (\<lambda>(f, e). f * (1 / e\<^sup>2)) vs)"
proof -
  have a: "map weight_of val = map (\<lambda>fe. fdiv (Fin 1) (fmul (snd fe) (snd fe))) (map snd val)"
    by (simp add: weight_of_def)
  have b: "map (\<lambda>ob. fmul (fst (snd ob)) (weight_of ob)) val
         = map (\<lambda>fe. fmul (fst fe) (fdiv (Fin 1) (fmul (snd fe) (snd fe)))) (map snd val)"
    by (simp add: weight_of_def)
  show "map weight_of val = map Fin (map (\<lambda>(f, e). 1 / e\<^sup>2) vs)"
    unfolding a rel using pos by (auto simp: power2_eq_square)
  show "map (\<lambda>ob. fmul (fst (snd ob)) (weight_of ob)) val
           = map Fin (map (\<lambda>(f, e). f * (1 / e\<^sup>2)) vs)"
    unfolding b rel using pos by (auto simp: power2_eq_square)
qed

lemma bin_body_spec:
  assumes len: "length phases = length flux" "length flux = length flux_err"
    and lo: "edges ! i = Fin lo" and hi: "edges ! (i + 1) = Fin hi"
  shows "bin_body phases flux flux_err edges i c
           = Inr (bin_result c (valid_obs phases flux flux_err lo hi))"
proof -
  let ?obs = "zip phases (zip flux flux_err)"
  let ?vs = "valid_obs phases flux flux_err lo hi"
  let ?val = "filter is_valid (filter (in_phase_bin (Fin lo) (Fin hi)) ?obs)"
  note cols = zip3_columns[OF len]
  have rel: "map snd ?val = map (\<lambda>(f, e). (Fin f, Fin e)) ?vs"
    unfolding valid_obs_def by (rule valid_rel)
  have pos: "\<forall>(f, e) \<in> set ?vs. 0 < e"
    using valid_obs_pos by fastforce
  have "length ?val = length ?vs"
    using arg_cong[OF rel, of length] by (simp del: filter_filter)
  then have emp: "?val = [] \<longleftrightarrow> ?vs = []"
    by (simp only: length_0_conv[symmetric])
  have body: "bin_body phases flux flux_err edges i c =
         Inr (if ?val = [] then (c, NaN, NaN)
              else (c, fdiv (np_sum (map (\<lambda>ob. fmul (fst (snd ob)) (weight_of ob)) ?val))
                           (np_sum (map weight_of ?val)),
                       fsqrt (fdiv (Fin 1) (np_sum (map weight_of ?val)))))"
    using bin_body_obs[of ?obs edges i c] cols lo hi by simp
  show ?thesis
  proof (cases "?vs = []")
    case True
    with emp body show ?thesis by (simp add: bin_result_def)
  next
    case False
    from sum_weights_pos[OF False pos] have sw: "0 < sum_weights ?vs" .
    have s1: "np_sum (map weight_of ?val) = Fin (sum_weights ?vs)"
      unfolding weights_of_valid(1)[OF rel pos] np_sum_fin sum_weights_def ..
    have s2: "np_sum (map (\<lambda>ob. fmul (fst (snd ob)) (weight_of ob)) ?val)
               = Fin (\<Sum>(f, e) \<leftarrow> ?vs. f * (1 / e\<^sup>2))"
      unfolding weights_of_valid(2)[OF rel pos] np_sum_fin ..
    from False emp have "?val \<noteq> []" by simp
    with body s1 s2 sw False show ?thesis
      by (simp add: bin_result_def weighted_flux_def weighted_err_def)
  qed
qed

subsection \<open>The grid of bins and the stages of \<open>bin_phase_folded_data\<close>\<close>

lemma np_linspace01_pos:
  "0 < n \<Longrightarrow> np_linspace01 (int n + 1) = Inr (map (\<lambda>i. Fin (real i / real n)) [0..<Suc n])"
  by (simp add: np_linspace01_def nat_add_distrib)

lemma np_linspace01_length:
  "np_linspace01 num = Inr edges \<Longrightarrow> length edges = nat num"
  by (auto simp: np_linspace01_def split: if_splits)

lemma bin_centers_length: "length (bin_centers_of edges) = length edges - 1"
  by (simp add: bin_centers_of_def)

lemma bin_centers_linspace:
  "bin_centers_of (map (\<lambda>i. Fin (real i / real n)) [0..<Suc n])
     = map (\<lambda>i. Fin (bin_mid n i)) [0..<n]"
proof -
  let ?f = "\<lambda>i. Fin (real i / real n)"
  have b: "butlast (map ?f [0..<Suc n]) = map ?f [0..<n]"
    by simp
  have t: "tl (map ?f [0..<Suc n]) = map (\<lambda>i. ?f (Suc i)) [0..<n]"
  proof -
    have "tl [0..<Suc n] = map Suc [0..<n]" by (simp only: tl_upt map_Suc_upt)
    then show ?thesis by (simp only: map_tl[symmetric] map_map comp_def)
  qed
  have z: "map2 g (map ?f xs) (map (\<lambda>i. ?f (Suc i)) xs) = map (\<lambda>i. g (?f i) (?f (Suc i))) xs"
    for g :: "npfloat \<Rightarrow> npfloat \<Rightarrow> npfloat" and xs
    by (induction xs) auto
  show ?thesis
    unfolding bin_centers_of_def b t z
    by (simp add: bin_mid_def bin_lo_def bin_hi_def)
qed

lemma bin_loop_all:
  assumes "\<And>i c. (i, c) \<in> set ics \<Longrightarrow> bin_body ph fl fe edges i c = Inr (B i c)"
  shows "bin_loop ph fl fe edges ics = Inr (map (\<lambda>(i, c). B i c) ics)"
  using assms by (induction ics) auto

lemma bin_loop_length:
  "bin_loop ph fl fe edges ics = Inr bs \<Longrightarrow> length bs = length ics"
  by (induction ics arbitrary: bs) (auto split: sum.splits)

lemma bin_phases_length:
  assumes "bin_phases phases flux flux_err num_bins = Inr bins"
  shows "length bins = nat num_bins"
proof -
  from assms obtain edges where e: "np_linspace01 (num_bins + 1) = Inr edges"
    and l: "bin_loop phases flux flux_err edges
              (zip [0..<length (bin_centers_of edges)] (bin_centers_of edges)) = Inr bins"
    by (auto simp: bin_phases_def Let_def split: sum.splits)
  from e have nn: "0 \<le> num_bins + 1" by (auto simp: np_linspace01_def split: if_splits)
  from bin_loop_length[OF l] have "length bins = length edges - 1"
    by (simp add: bin_centers_length)
  also have "\<dots> = nat (num_bins + 1) - 1" using np_linspace01_length[OF e] by simp
  also have "\<dots> = nat num_bins" using nn by (simp add: nat_diff_distrib' nat_add_distrib)
  finally show ?thesis .
qed

lemma bin_phases_spec:
  assumes n: "0 < n"
    and len: "length phases = length flux" "length flux = length flux_err"
  shows "bin_phases phases flux flux_err (int n)
           = Inr (map (\<lambda>i. bin_result (Fin (bin_mid n i))
                          (valid_obs phases flux flux_err (bin_lo n i) (bin_hi n i))) [0..<n])"
proof -
  let ?edges = "map (\<lambda>i. Fin (real i / real n)) [0..<Suc n]"
  let ?B = "\<lambda>i c. bin_result c (valid_obs phases flux flux_err (bin_lo n i) (bin_hi n i))"
  have body: "bin_body phases flux flux_err ?edges i c = Inr (?B i c)"
    if "(i, c) \<in> set (zip [0..<n] (map (\<lambda>i. Fin (bin_mid n i)) [0..<n]))" for i c
  proof -
    from that have i: "i < n" by (auto dest: set_zip_leftD)
    have lo: "?edges ! i = Fin (bin_lo n i)"
      using i by (simp add: bin_lo_def del: upt_Suc)
    have hi: "?edges ! (i + 1) = Fin (bin_hi n i)"
      using i by (simp add: bin_hi_def del: upt_Suc)
    show ?thesis by (rule bin_body_spec[OF len lo hi])
  qed
  have zipm: "zip [0..<n] (map (\<lambda>i. Fin (bin_mid n i)) [0..<n])
               = map (\<lambda>i. (i, Fin (bin_mid n i))) [0..<n]"
    by (simp add: zip_map2 zip_same_conv_map)
  have "bin_phases phases flux flux_err (int n)
          = bin_loop phases flux flux_err ?edges
              (zip [0..<n] (map (\<lambda>i. Fin (bin_mid n i)) [0..<n]))"
    by (simp add: bin_phases_def np_linspace01_pos[OF n] bin_centers_linspace Let_def
          del: upt_Suc)
  also have "\<dots> = Inr (map (\<lambda>(i, c). ?B i c)
                         (zip [0..<n] (map (\<lambda>i. Fin (bin_mid n i)) [0..<n])))"
    by (rule bin_loop_all) (rule body)
  also have "\<dots> = Inr (map (\<lambda>i. ?B i (Fin (bin_mid n i))) [0..<n])"
    unfolding zipm by (simp add: comp_def)
  finally show ?thesis .
qed


lemma bin_result_cols:
  "col0 (bin_result c vs) = c"
  "col1 (bin_result c vs) = (if vs = [] then NaN else Fin (weighted_flux vs))"
  "col2 (bin_result c vs) = (if vs = [] then NaN else Fin (weighted_err vs))"
  by (simp_all add: bin_result_def col0_def col1_def col2_def)

lemma phase_fold_length:
  "phase_fold time period period_derivative reference_epoch = Inr phases
     \<Longrightarrow> length phases = length time"
  by (auto simp: phase_fold_def Let_def split: sum.splits option.splits)

lemma normalize_falsy: "\<not> truthy normalization \<Longrightarrow> normalize_bins bins normalization = Inr bins"
  by (cases normalization) (simp_all add: normalize_bins_def)

lemma normalize_shape:
  assumes "normalize_bins bins normalization = Inr bins'"
  shows "\<exists>g. g NaN = NaN \<and> bins' = map (\<lambda>b. (col0 b, g (col1 b), g (col2 b))) bins"
proof (cases "truthy normalization")
  case False
  with assms have "bins' = bins" by (simp add: normalize_falsy)
  then show ?thesis
    by (intro exI[of _ "\<lambda>x. x"]) (simp add: col0_def col1_def col2_def)
next
  case True
  then obtain s where s: "normalization = NormStr s" "s \<noteq> []"
    by (cases normalization) auto
  with assms obtain nf where "bins' = map (\<lambda>b. (col0 b, fdiv (col1 b) nf, fdiv (col2 b) nf)) bins"
    by (auto simp: normalize_bins_def Let_def split: if_splits option.splits)
  then show ?thesis
    by (intro exI[of _ "\<lambda>x. fdiv x nf"]) simp
qed

lemma replicate_cycles_cols:
  assumes "replicate_cycles bins 1 = Inr out"
  shows "bins \<noteq> [] \<and> phase_col out = map col0 bins \<and> flux_col out = map col1 bins
         \<and> flux_err_col out = map col2 bins"
  using assms by (auto simp: replicate_cycles_def Let_def split: if_splits)


lemma binned_stages:
  assumes pf: "phase_fold time period period_derivative reference_epoch = Inr phases"
    and len: "length time = length flux" "length flux = length flux_err"
    and n: "0 < n"
  shows "bin_phase_folded_data time flux flux_err period period_derivative reference_epoch
           (int n) num_cycles normalization
         = (case normalize_bins
                   (map (\<lambda>i. bin_result (Fin (bin_mid n i))
                            (valid_obs phases flux flux_err (bin_lo n i) (bin_hi n i))) [0..<n])
                   normalization of
              Inl e \<Rightarrow> Inl e
            | Inr binned_lc \<Rightarrow> replicate_cycles binned_lc num_cycles)"
proof -
  from phase_fold_length[OF pf] len have l: "length phases = length flux" by simp
  show ?thesis
    by (simp add: bin_phase_folded_data_def pf bin_phases_spec[OF n l len(2)])
qed

subsection \<open>Inverse-variance weighted mean\<close>




subsection \<open>Bins without valid observations\<close>





subsection \<open>Cycle replication\<close>

lemma normalize_length:
  "normalize_bins bins normalization = Inr bins' \<Longrightarrow> length bins' = length bins"
  using normalize_shape by fastforce

lemma binned_before_replication:
  "(\<exists>e. \<forall>nc. bin_phase_folded_data time flux flux_err period period_derivative reference_epoch
               num_bins nc normalization = Inl e)
   \<or> (\<exists>b. length b = nat num_bins
          \<and> (\<forall>nc. bin_phase_folded_data time flux flux_err period period_derivative
                     reference_epoch num_bins nc normalization = replicate_cycles b nc))"
proof (cases "phase_fold time period period_derivative reference_epoch")
  case (Inl e)
  then show ?thesis by (simp add: bin_phase_folded_data_def)
next
  case pf: (Inr phases)
  show ?thesis
  proof (cases "bin_phases phases flux flux_err num_bins")
    case (Inl e)
    with pf show ?thesis by (simp add: bin_phase_folded_data_def)
  next
    case bp: (Inr bins)
    show ?thesis
    proof (cases "normalize_bins bins normalization")
      case (Inl e)
      with pf bp show ?thesis by (simp add: bin_phase_folded_data_def)
    next
      case (Inr bins')
      from normalize_length[OF Inr] bin_phases_length[OF bp]
      have "length bins' = nat num_bins" by simp
      moreover from pf bp Inr have
        "\<forall>nc. bin_phase_folded_data time flux flux_err period period_derivative
                 reference_epoch num_bins nc normalization = replicate_cycles bins' nc"
        by (simp add: bin_phase_folded_data_def)
      ultimately show ?thesis by blast
    qed
  qed
qed

lemma replicate_cycles_relations:
  assumes "replicate_cycles b 1 = Inr out"
  shows "length (phase_col out) = length b \<and> length (flux_col out) = length b
       \<and> length (flux_err_col out) = length b
       \<and> replicate_cycles b 2
           = Inr \<lparr> phase_col = map (\<lambda>p. fsub p (Fin 1)) (phase_col out) @ phase_col out,
                   flux_col = flux_col out @ flux_col out,
                   flux_err_col = flux_err_col out @ flux_err_col out \<rparr>
       \<and> replicate_cycles b 3
           = Inr \<lparr> phase_col = map (\<lambda>p. fsub p (Fin 1)) (phase_col out) @ phase_col out
                                @ map (\<lambda>p. fadd p (Fin 1)) (phase_col out),
                   flux_col = flux_col out @ flux_col out @ flux_col out,
                   flux_err_col = flux_err_col out @ flux_err_col out @ flux_err_col out \<rparr>"
proof -
  from replicate_cycles_cols[OF assms] have ne: "b \<noteq> []"
    and c: "phase_col out = map col0 b" "flux_col out = map col1 b" "flux_err_col out = map col2 b"
    by simp_all
  show ?thesis
    unfolding c using ne
    by (simp add: replicate_cycles_def shift_phase_def col0_def col1_def col2_def comp_def)
qed

lemma replicate_cycles_invalid:
  "num_cycles \<noteq> 1 \<Longrightarrow> num_cycles \<noteq> 2 \<Longrightarrow> num_cycles \<noteq> 3
     \<Longrightarrow> replicate_cycles b num_cycles = Inl InvalidCycleCount"
  by (simp add: replicate_cycles_def)

lemma replicate_cycles_error:
  "replicate_cycles b 1 = Inl e \<Longrightarrow> replicate_cycles b 2 = Inl e \<and> replicate_cycles b 3 = Inl e"
  by (auto simp: replicate_cycles_def Let_def split: if_splits)

lemma replicate_cycles_length:
  assumes "replicate_cycles b num_cycles = Inr out"
  shows "length (phase_col out) = length b * nat num_cycles
       \<and> length (flux_col out) = length b * nat num_cycles
       \<and> length (flux_err_col out) = length b * nat num_cycles \<and> b \<noteq> []"
  using assms by (auto simp: replicate_cycles_def shift_phase_def Let_def split: if_splits)

text \<open>
  C4. For every input: the curve for two cycles is the curve for one cycle preceded by a
  copy whose phases are shifted by \<open>-1\<close>; the curve for three cycles is that copy, the
  one-cycle curve and a copy shifted by \<open>+1\<close>, in this order; flux and error are
  copied as they are. Each column of a returned curve has \<open>num_bins * num_cycles\<close>
  entries. A call with another \<open>num_cycles\<close> always fails, and it fails with
  \<open>InvalidCycleCount\<close> whenever the call for one cycle returns (otherwise the earlier
  failure is raised first). When the call for one cycle fails, those for two and three
  cycles fail alike.
\<close>

theorem cycle_replication:
  "(num_cycles \<noteq> 1 \<and> num_cycles \<noteq> 2 \<and> num_cycles \<noteq> 3 \<longrightarrow>
      (\<exists>e. bin_phase_folded_data time flux flux_err period period_derivative
             reference_epoch num_bins num_cycles normalization = Inl e))
   \<and> (\<forall>out. bin_phase_folded_data time flux flux_err period period_derivative
             reference_epoch num_bins 1 normalization = Inr out \<longrightarrow>
        length (phase_col out) = nat num_bins \<and> length (flux_col out) = nat num_bins
      \<and> length (flux_err_col out) = nat num_bins
      \<and> bin_phase_folded_data time flux flux_err period period_derivative
             reference_epoch num_bins 2 normalization = Inr \<lparr> phase_col = map (\<lambda>p. fsub p (Fin 1)) (phase_col out) @ phase_col out,
                   flux_col = flux_col out @ flux_col out,
                   flux_err_col = flux_err_col out @ flux_err_col out \<rparr>
      \<and> bin_phase_folded_data time flux flux_err period period_derivative
             reference_epoch num_bins 3 normalization = Inr \<lparr> phase_col = map (\<lambda>p. fsub p (Fin 1)) (phase_col out) @ phase_col out
                                @ map (\<lambda>p. fadd p (Fin 1)) (phase_col out),
                   flux_col = flux_col out @ flux_col out @ flux_col out,
                   flux_err_col = flux_err_col out @ flux_err_col out @ flux_err_col out \<rparr>
      \<and> (num_cycles \<noteq> 1 \<and> num_cycles \<noteq> 2 \<and> num_cycles \<noteq> 3 \<longrightarrow>
           bin_phase_folded_data time flux flux_err period period_derivative
             reference_epoch num_bins num_cycles normalization = Inl InvalidCycleCount))
   \<and> (\<forall>e. bin_phase_folded_data time flux flux_err period period_derivative
             reference_epoch num_bins 1 normalization = Inl e \<longrightarrow> bin_phase_folded_data time flux flux_err period period_derivative
             reference_epoch num_bins 2 normalization = Inl e \<and> bin_phase_folded_data time flux flux_err period period_derivative
             reference_epoch num_bins 3 normalization = Inl e)
   \<and> (\<forall>out. bin_phase_folded_data time flux flux_err period period_derivative
             reference_epoch num_bins num_cycles normalization = Inr out \<longrightarrow>
        length (phase_col out) = nat (num_bins * num_cycles)
      \<and> length (flux_col out) = nat (num_bins * num_cycles)
      \<and> length (flux_err_col out) = nat (num_bins * num_cycles))"
proof -
  consider (err) e where
      "\<forall>nc. bin_phase_folded_data time flux flux_err period period_derivative reference_epoch
               num_bins nc normalization = Inl e"
    | (ok) b where "length b = nat num_bins"
      "\<forall>nc. bin_phase_folded_data time flux flux_err period period_derivative
               reference_epoch num_bins nc normalization = replicate_cycles b nc"
    using binned_before_replication[of time flux flux_err period period_derivative
        reference_epoch num_bins normalization] by blast
  then show ?thesis
  proof cases
    case err
    then show ?thesis by simp
  next
    case ok
    have inv: "replicate_cycles b num_cycles = Inl InvalidCycleCount"
      if "num_cycles \<noteq> 1 \<and> num_cycles \<noteq> 2 \<and> num_cycles \<noteq> 3"
      using that by (simp add: replicate_cycles_invalid)
    have len: "length (phase_col out) = nat (num_bins * num_cycles)
      \<and> length (flux_col out) = nat (num_bins * num_cycles)
      \<and> length (flux_err_col out) = nat (num_bins * num_cycles)"
      if r: "replicate_cycles b num_cycles = Inr out" for out
    proof -
      from replicate_cycles_length[OF r] ok(1) have l:
        "length (phase_col out) = nat num_bins * nat num_cycles"
        "length (flux_col out) = nat num_bins * nat num_cycles"
        "length (flux_err_col out) = nat num_bins * nat num_cycles" and ne: "nat num_bins \<noteq> 0"
        by auto
      from ne have "0 \<le> num_bins" by simp
      then have "nat (num_bins * num_cycles) = nat num_bins * nat num_cycles"
        by (rule nat_mult_distrib)
      with l show ?thesis by simp
    qed
    show ?thesis
      unfolding ok(2)[rule_format]
      using replicate_cycles_relations[of b] replicate_cycles_error[of b] inv ok(1) len
      by (intro conjI allI impI) (simp_all (no_asm_simp))
  qed
qed


theorem cycle_replication_witness:
  "bin_phase_folded_data [Fin (1/10)] [Fin 10] [Fin 1] (PyFloat (Fin 1)) (PyFloat (Fin 0))
      (Some (Fin 0)) 2 1 NormFalse
     = Inr \<lparr> phase_col = [Fin (1/4), Fin (3/4)], flux_col = [Fin 10, NaN],
             flux_err_col = [Fin 1, NaN] \<rparr>
   \<and> bin_phase_folded_data [Fin (1/10)] [Fin 10] [Fin 1] (PyFloat (Fin 1)) (PyFloat (Fin 0))
      (Some (Fin 0)) 2 3 NormFalse
     = Inr \<lparr> phase_col = [Fin (- 3/4), Fin (- 1/4), Fin (1/4), Fin (3/4), Fin (5/4), Fin (7/4)],
             flux_col = [Fin 10, NaN, Fin 10, NaN, Fin 10, NaN],
             flux_err_col = [Fin 1, NaN, Fin 1, NaN, Fin 1, NaN] \<rparr>
   \<and> bin_phase_folded_data [Fin (1/10)] [Fin 10] [Fin 1] (PyFloat (Fin 1)) (PyFloat (Fin 0))
      (Some (Fin 0)) 2 4 NormFalse = Inl InvalidCycleCount"
proof -
  have pf: "phase_fold [Fin (1/10)] (PyFloat (Fin 1)) (PyFloat (Fin 0)) (Some (Fin 0))
              = Inr [Fin (1/10)]"
    by (simp add: phase_fold_def fsub_def np_remainder_def c_fmod_def)
  have v0: "valid_obs [Fin (1/10)] [Fin 10] [Fin 1] 0 (1/2) = [(10, 1)]"
    and v1: "valid_obs [Fin (1/10)] [Fin 10] [Fin 1] (1/2) 1 = []"
    by (simp_all add: valid_obs_def map_filter_simps valid_pair_def)
  have up: "[0..<2] = [0, Suc 0]" by (simp add: upt_conv_Cons)
  have l1: "length [Fin (1/10)] = length [Fin 10]" and l2: "length [Fin 10] = length [Fin 1]"
    and n2: "0 < (2::nat)" by simp_all
  have one: "bin_phase_folded_data [Fin (1/10)] [Fin 10] [Fin 1] (PyFloat (Fin 1)) (PyFloat (Fin 0))
      (Some (Fin 0)) (int 2) 1 NormFalse
     = Inr \<lparr> phase_col = [Fin (1/4), Fin (3/4)], flux_col = [Fin 10, NaN],
             flux_err_col = [Fin 1, NaN] \<rparr>"
    unfolding binned_stages[OF pf l1 l2 n2] up
    by (simp add: v0 v1 normalize_bins_def replicate_cycles_def bin_result_def
          col0_def col1_def col2_def bin_mid_def bin_lo_def bin_hi_def
          weighted_flux_def weighted_err_def sum_weights_def)
  from cycle_replication[of 4 "[Fin (1/10)]" "[Fin 10]" "[Fin 1]" "PyFloat (Fin 1)"
      "PyFloat (Fin 0)" "Some (Fin 0)" 2 NormFalse] one
  show ?thesis by (simp add: fsub_def)
qed

subsection \<open>Normalization\<close>

lemma unnormalized_rows:
  assumes "bin_phase_folded_data time flux flux_err period period_derivative reference_epoch
             num_bins 1 NormFalse = Inr raw"
  shows "\<exists>bins. bins \<noteq> []
       \<and> phase_col raw = map col0 bins \<and> flux_col raw = map col1 bins
       \<and> flux_err_col raw = map col2 bins
       \<and> (\<forall>nc norm. bin_phase_folded_data time flux flux_err period period_derivative
                        reference_epoch num_bins nc norm
                    = (case normalize_bins bins norm of
                         Inl e \<Rightarrow> Inl e
                       | Inr bins' \<Rightarrow> replicate_cycles bins' nc))"
proof -
  from assms obtain phases bins where
    pf: "phase_fold time period period_derivative reference_epoch = Inr phases"
    and bp: "bin_phases phases flux flux_err num_bins = Inr bins"
    and rc: "replicate_cycles bins 1 = Inr raw"
    by (auto simp: bin_phase_folded_data_def normalize_bins_def split: sum.splits)
  from replicate_cycles_cols[OF rc] pf bp show ?thesis
    by (intro exI[of _ bins]) (simp add: bin_phase_folded_data_def)
qed

lemma norm_methods_keys:
  "map_of norm_methods k = None \<longleftrightarrow> k \<notin> set [''median'', ''min'', ''max'', ''mean'']"
  by (simp add: norm_methods_def)

lemma one_observation_rows:
  "bin_phase_folded_data [Fin (1/10)] [Fin f] [Fin 1] (PyFloat (Fin 1)) (PyFloat (Fin 0))
      (Some (Fin 0)) (int 1) num_cycles normalization
     = (case normalize_bins [(Fin (1/2), Fin f, Fin 1)] normalization of
          Inl e \<Rightarrow> Inl e
        | Inr binned_lc \<Rightarrow> replicate_cycles binned_lc num_cycles)"
proof -
  have pf: "phase_fold [Fin (1/10)] (PyFloat (Fin 1)) (PyFloat (Fin 0)) (Some (Fin 0))
              = Inr [Fin (1/10)]"
    by (simp add: phase_fold_def fsub_def np_remainder_def c_fmod_def)
  have l1: "length [Fin (1/10)] = length [Fin f]" and l2: "length [Fin f] = length [Fin 1]"
    and n1: "0 < (1::nat)" by simp_all
  have v: "valid_obs [Fin (1/10)] [Fin f] [Fin 1] 0 1 = [(f, 1)]"
    by (simp add: valid_obs_def map_filter_simps valid_pair_def)
  show ?thesis
    unfolding binned_stages[OF pf l1 l2 n1]
    by (simp add: v bin_result_def bin_mid_def bin_lo_def bin_hi_def
          weighted_flux_def weighted_err_def sum_weights_def)
qed


text \<open>
  The normalization factor is not checked. One observation with the flux 0 and the error 1
  gives the median 0, and the call returns the curve divided by it: the flux \<open>0 / 0\<close> is
  NaN and the error \<open>1 / 0\<close> is infinite.
\<close>

theorem zero_factor_counterexample:
  "bin_phase_folded_data [Fin (1/10)] [Fin 0] [Fin 1] (PyFloat (Fin 1)) (PyFloat (Fin 0))
      (Some (Fin 0)) 1 1 (NormStr ''median'')
     = Inr \<lparr> phase_col = [Fin (1/2)], flux_col = [NaN], flux_err_col = [PInf] \<rparr>"
  using one_observation_rows[of 0 1 "NormStr ''median''"]
  by (simp add: normalize_bins_def replicate_cycles_def finite_values_def map_filter_simps
        norm_methods_def np_median_def lower_def lower_char_def col0_def col1_def col2_def)


text \<open>
  C6, as the code has it. Let \<open>raw\<close> be the curve for one cycle without normalization,
  and let the normalization be a non-empty string \<open>s\<close>. When no flux of \<open>raw\<close> is
  finite the call fails with \<open>NoValidData\<close>, whatever the string, this check coming
  first. When some flux is finite and the lower-case form of \<open>s\<close> is not one of
  \<open>median\<close>, \<open>min\<close>, \<open>max\<close>, \<open>mean\<close>, the call fails with
  \<open>InvalidNormalization\<close>. When some flux is finite and the method is known, the factor
  is the method's value on the finite fluxes and the call for one cycle returns \<open>raw\<close>
  with every flux and every error divided by the factor, whatever the factor is.
\<close>

theorem normalization_failures:
  assumes raw: "bin_phase_folded_data time flux flux_err period period_derivative reference_epoch
              num_bins 1 NormFalse = Inr raw"
    and s: "s \<noteq> []"
  shows "(finite_values (flux_col raw) = [] \<longrightarrow>
            bin_phase_folded_data time flux flux_err period period_derivative reference_epoch
              num_bins num_cycles (NormStr s) = Inl NoValidData)
       \<and> (finite_values (flux_col raw) \<noteq> []
            \<and> lower s \<notin> set [''median'', ''min'', ''max'', ''mean''] \<longrightarrow>
            bin_phase_folded_data time flux flux_err period period_derivative reference_epoch
              num_bins num_cycles (NormStr s) = Inl InvalidNormalization)
       \<and> (finite_values (flux_col raw) \<noteq> []
            \<and> lower s \<in> set [''median'', ''min'', ''max'', ''mean''] \<longrightarrow>
            (\<exists>norm_fn. map_of norm_methods (lower s) = Some norm_fn
               \<and> bin_phase_folded_data time flux flux_err period period_derivative reference_epoch
              num_bins 1 (NormStr s)
                   = Inr \<lparr> phase_col = phase_col raw,
                           flux_col = map (\<lambda>x. fdiv x (Fin (norm_fn (finite_values (flux_col raw)))))
                                        (flux_col raw),
                           flux_err_col = map (\<lambda>x. fdiv x (Fin (norm_fn (finite_values (flux_col raw)))))
                                            (flux_err_col raw) \<rparr>))"
proof -
  from unnormalized_rows[OF raw] obtain bins where ne: "bins \<noteq> []"
    and c: "phase_col raw = map col0 bins" "flux_col raw = map col1 bins"
      "flux_err_col raw = map col2 bins"
    and st: "\<And>nc norm. bin_phase_folded_data time flux flux_err period period_derivative
                        reference_epoch num_bins nc norm
                    = (case normalize_bins bins norm of
                         Inl e \<Rightarrow> Inl e
                       | Inr bins' \<Rightarrow> replicate_cycles bins' nc)"
    by blast
  show ?thesis
  proof (intro conjI impI)
    assume "finite_values (flux_col raw) = []"
    then show "bin_phase_folded_data time flux flux_err period period_derivative reference_epoch
              num_bins num_cycles (NormStr s) = Inl NoValidData"
      unfolding st using s ne by (simp add: normalize_bins_def c)
  next
    assume "finite_values (flux_col raw) \<noteq> []
            \<and> lower s \<notin> set [''median'', ''min'', ''max'', ''mean'']"
    then have v: "finite_values (map col1 bins) \<noteq> []"
      and k: "map_of norm_methods (lower s) = None"
      using norm_methods_keys[of "lower s"] by (simp_all only: c) blast+
    show "bin_phase_folded_data time flux flux_err period period_derivative reference_epoch
              num_bins num_cycles (NormStr s) = Inl InvalidNormalization"
      unfolding st using s ne v k by (simp add: normalize_bins_def)
  next
    assume "finite_values (flux_col raw) \<noteq> []
            \<and> lower s \<in> set [''median'', ''min'', ''max'', ''mean'']"
    then have v: "finite_values (map col1 bins) \<noteq> []"
      and k: "map_of norm_methods (lower s) \<noteq> None"
      using norm_methods_keys[of "lower s"] by (simp_all only: c) blast+
    from k obtain norm_fn where m: "map_of norm_methods (lower s) = Some norm_fn" by blast
    let ?nf = "Fin (norm_fn (finite_values (map col1 bins)))"
    have nb: "normalize_bins bins (NormStr s)
                = Inr (map (\<lambda>b. (col0 b, fdiv (col1 b) ?nf, fdiv (col2 b) ?nf)) bins)"
      using s ne v m by (simp add: normalize_bins_def Let_def)
    show "\<exists>norm_fn. map_of norm_methods (lower s) = Some norm_fn
               \<and> bin_phase_folded_data time flux flux_err period period_derivative reference_epoch
              num_bins 1 (NormStr s)
                   = Inr \<lparr> phase_col = phase_col raw,
                           flux_col = map (\<lambda>x. fdiv x (Fin (norm_fn (finite_values (flux_col raw)))))
                                        (flux_col raw),
                           flux_err_col = map (\<lambda>x. fdiv x (Fin (norm_fn (finite_values (flux_col raw)))))
                                            (flux_err_col raw) \<rparr>"
      unfolding st nb c using ne m
      by (intro exI[of _ norm_fn])
         (simp add: replicate_cycles_def comp_def col0_def col1_def col2_def)
  qed
qed


theorem normalization_failures_witness:
  "bin_phase_folded_data [Fin (1/10)] [Fin 10] [Fin 1] (PyFloat (Fin 1)) (PyFloat (Fin 0))
      (Some (Fin 0)) 1 4 (NormStr ''bogus'') = Inl InvalidNormalization
   \<and> bin_phase_folded_data [Fin (1/10)] [Fin 10] [Fin 1] (PyFloat (Fin 1)) (PyFloat (Fin 0))
      (Some (Fin 0)) 1 1 (NormStr ''MEAN'')
     = Inr \<lparr> phase_col = [Fin (1/2)], flux_col = [Fin 1], flux_err_col = [Fin (1/10)] \<rparr>"
proof -
  have raw: "bin_phase_folded_data [Fin (1/10)] [Fin 10] [Fin 1] (PyFloat (Fin 1))
      (PyFloat (Fin 0)) (Some (Fin 0)) (int 1) 1 NormFalse
     = Inr \<lparr> phase_col = [Fin (1/2)], flux_col = [Fin 10], flux_err_col = [Fin 1] \<rparr>"
    unfolding one_observation_rows
    by (simp add: normalize_bins_def replicate_cycles_def col0_def col1_def col2_def)
  have fv: "finite_values [Fin 10] = [10]"
    by (simp add: finite_values_def map_filter_simps)
  have lo1: "lower ''bogus'' = ''bogus''" and lo2: "lower ''MEAN'' = ''mean''"
    by code_simp+
  have s1: "''bogus'' \<noteq> []" and s2: "''MEAN'' \<noteq> []" by simp_all
  from normalization_failures[OF raw s1, of 4]
  have a: "bin_phase_folded_data [Fin (1/10)] [Fin 10] [Fin 1] (PyFloat (Fin 1)) (PyFloat (Fin 0))
      (Some (Fin 0)) (int 1) 4 (NormStr ''bogus'') = Inl InvalidNormalization"
    by (simp add: fv lo1)
  from normalization_failures[OF raw s2, of 1]
  have b: "bin_phase_folded_data [Fin (1/10)] [Fin 10] [Fin 1] (PyFloat (Fin 1)) (PyFloat (Fin 0))
      (Some (Fin 0)) (int 1) 1 (NormStr ''MEAN'')
     = Inr \<lparr> phase_col = [Fin (1/2)], flux_col = [Fin 1], flux_err_col = [Fin (1/10)] \<rparr>"
    by (simp add: fv lo2 norm_methods_def np_mean_def)
  from a b show ?thesis by simp
qed

subsection \<open>A phase equal to 1\<close>

lemma bin_hi_le_one: "i < n \<Longrightarrow> bin_hi n i \<le> 1"
  by (simp add: bin_hi_def)

lemma valid_pair_phase_one: "hi \<le> 1 \<Longrightarrow> valid_pair lo hi (Fin 1, f, e) = None"
  by (cases f; cases e) (simp_all add: valid_pair_def)

lemma valid_obs_drop:
  assumes len: "length ps1 = length fs1" "length fs1 = length es1"
    and none: "valid_pair lo hi (p, f, e) = None"
  shows "valid_obs (ps1 @ p # ps2) (fs1 @ f # fs2) (es1 @ e # es2) lo hi
           = valid_obs (ps1 @ ps2) (fs1 @ fs2) (es1 @ es2) lo hi"
proof -
  have z: "zip (ps1 @ p # ps2) (zip (fs1 @ f # fs2) (es1 @ e # es2))
             = zip ps1 (zip fs1 es1) @ (p, f, e) # zip ps2 (zip fs2 es2)"
    using len by simp
  have z': "zip (ps1 @ ps2) (zip (fs1 @ fs2) (es1 @ es2))
             = zip ps1 (zip fs1 es1) @ zip ps2 (zip fs2 es2)"
    using len by simp
  show ?thesis
    unfolding valid_obs_def z z' using none by (simp add: map_filter_def)
qed

text \<open>
  C9. Let the phases hold the value 1 at some position, with any flux \<open>f\<close> and error
  \<open>e\<close> there. For \<open>n \<ge> 1\<close> bins the mask of every bin is false at this observation,
  the upper edge of the last bin being 1 and the test being \<open>phase < phase_max\<close>. So
  the valid observations of every bin, and with them the rows that the loop returns, are
  those of the input without this observation.
\<close>

theorem phase_one_in_no_bin:
  assumes n: "0 < n"
    and len: "length ps1 = length fs1" "length fs1 = length es1"
      "length ps2 = length fs2" "length fs2 = length es2"
  shows "(\<forall>edges i. np_linspace01 (int n + 1) = Inr edges \<and> i < n \<longrightarrow>
            bin_mask [Fin 1] (edges ! i) (edges ! (i + 1)) = [False])
       \<and> (\<forall>i < n. valid_obs (ps1 @ Fin 1 # ps2) (fs1 @ f # fs2) (es1 @ e # es2)
                     (bin_lo n i) (bin_hi n i)
                 = valid_obs (ps1 @ ps2) (fs1 @ fs2) (es1 @ es2) (bin_lo n i) (bin_hi n i))
       \<and> bin_phases (ps1 @ Fin 1 # ps2) (fs1 @ f # fs2) (es1 @ e # es2) (int n)
           = bin_phases (ps1 @ ps2) (fs1 @ fs2) (es1 @ es2) (int n)
       \<and> (\<exists>bins. bin_phases (ps1 @ ps2) (fs1 @ fs2) (es1 @ es2) (int n) = Inr bins)"
proof (intro conjI allI impI)
  fix edges i
  assume "np_linspace01 (int n + 1) = Inr edges \<and> i < n"
  then have "np_linspace01 (int n + 1) = Inr edges" and i: "i < n" by blast+
  then have e: "edges = map (\<lambda>i. Fin (real i / real n)) [0..<Suc n]"
    unfolding np_linspace01_pos[OF n] by (simp only: sum.inject)
  have "edges ! (i + 1) = Fin (bin_hi n i)"
    unfolding e using i by (simp add: bin_hi_def del: upt_Suc)
  moreover have "edges ! i = Fin (bin_lo n i)"
    unfolding e using i by (simp add: bin_lo_def del: upt_Suc)
  ultimately show "bin_mask [Fin 1] (edges ! i) (edges ! (i + 1)) = [False]"
    using bin_hi_le_one[OF i] by (simp add: bin_mask_def)
next
  have v: "valid_obs (ps1 @ Fin 1 # ps2) (fs1 @ f # fs2) (es1 @ e # es2)
                     (bin_lo n i) (bin_hi n i)
                 = valid_obs (ps1 @ ps2) (fs1 @ fs2) (es1 @ es2) (bin_lo n i) (bin_hi n i)"
    if "i < n" for i
    by (rule valid_obs_drop[OF len(1,2) valid_pair_phase_one[OF bin_hi_le_one[OF that]]])
  show "valid_obs (ps1 @ Fin 1 # ps2) (fs1 @ f # fs2) (es1 @ e # es2)
                     (bin_lo n i) (bin_hi n i)
                 = valid_obs (ps1 @ ps2) (fs1 @ fs2) (es1 @ es2) (bin_lo n i) (bin_hi n i)"
    if "i < n" for i using v[OF that] .
  have l1: "length (ps1 @ Fin 1 # ps2) = length (fs1 @ f # fs2)"
    and l2: "length (fs1 @ f # fs2) = length (es1 @ e # es2)"
    and l3: "length (ps1 @ ps2) = length (fs1 @ fs2)"
    and l4: "length (fs1 @ fs2) = length (es1 @ es2)"
    using len by simp_all
  show "bin_phases (ps1 @ Fin 1 # ps2) (fs1 @ f # fs2) (es1 @ e # es2) (int n)
           = bin_phases (ps1 @ ps2) (fs1 @ fs2) (es1 @ es2) (int n)"
    unfolding bin_phases_spec[OF n l1 l2] bin_phases_spec[OF n l3 l4]
    using v by simp
  show "\<exists>bins. bin_phases (ps1 @ ps2) (fs1 @ fs2) (es1 @ es2) (int n) = Inr bins"
    unfolding bin_phases_spec[OF n l3 l4] by blast
qed

theorem phase_one_in_no_bin_witness:
  "bin_phases [Fin (9/10), Fin 1] [Fin 10, Fin 1000] [Fin 1, Fin 1] 2
     = bin_phases [Fin (9/10)] [Fin 10] [Fin 1] 2
   \<and> bin_phases [Fin (9/10)] [Fin 10] [Fin 1] 2
     = Inr [(Fin (1/4), NaN, NaN), (Fin (3/4), Fin 10, Fin 1)]"
proof -
  have n2: "0 < (2::nat)" by simp
  have l: "length [Fin (9/10)] = length [Fin 10]" "length [Fin 10] = length [Fin 1]"
    "length ([]::npfloat list) = length ([]::npfloat list)"
    "length ([]::npfloat list) = length ([]::npfloat list)"
    by simp_all
  from phase_one_in_no_bin[OF n2 l, of "Fin 1000" "Fin 1"]
  have a: "bin_phases [Fin (9/10), Fin 1] [Fin 10, Fin 1000] [Fin 1, Fin 1] (int 2)
     = bin_phases [Fin (9/10)] [Fin 10] [Fin 1] (int 2)" by simp
  have v0: "valid_obs [Fin (9/10)] [Fin 10] [Fin 1] 0 (1/2) = []"
    and v1: "valid_obs [Fin (9/10)] [Fin 10] [Fin 1] (1/2) 1 = [(10, 1)]"
    by (simp_all add: valid_obs_def map_filter_simps valid_pair_def)
  have up: "[0..<2] = [0, Suc 0]" by (simp add: upt_conv_Cons)
  have b: "bin_phases [Fin (9/10)] [Fin 10] [Fin 1] (int 2)
     = Inr [(Fin (1/4), NaN, NaN), (Fin (3/4), Fin 10, Fin 1)]"
    unfolding bin_phases_spec[OF n2 l(1,2)] up
    by (simp add: v0 v1 bin_result_def bin_mid_def bin_lo_def bin_hi_def
          weighted_flux_def weighted_err_def sum_weights_def)
  from a b show ?thesis by simp
qed

section \<open>Properties of the period catalog\<close>

lemma read_result_files_update:
  "read_result_files (map (map (\<lambda>r. r\<lparr>per_day := h r\<rparr>)) fs)
     = (case read_result_files fs of
          Inl e \<Rightarrow> Inl e
        | Inr dfs \<Rightarrow> Inr (map (map (\<lambda>r. r\<lparr>per_day := h r\<rparr>)) dfs))"
  by (induction fs) (auto split: sum.splits)

lemma load_catalog_ignores_per_day:
  "load_catalog (map (map (\<lambda>r. r\<lparr>per_day := h r\<rparr>)) files) = load_catalog files"
  by (auto simp: load_catalog_def read_result_files_update map_concat comp_def
           split: sum.splits)

lemma load_catalog_per_day:
  assumes "load_catalog files = Inr df" "r \<in> set df"
  shows "per_day r = fdiv (per_min r) (Fin 1440)"
  using assms by (auto simp: load_catalog_def split: sum.splits if_splits)

lemma df_loc_rows:
  "loc_rows (df_loc df source_id) = filter (\<lambda>r. gid r = source_id) df"
  by (auto simp: df_loc_def split: list.splits)

lemma get_bls_stats_missing:
  assumes "load_catalog files = Inr df" "source_id \<notin> gid ` set df"
  shows "get_bls_stats files None source_id = (Inr None, Some df)"
    and "get_bls_stats files (Some df) source_id = (Inr None, Some df)"
  using assms by (simp_all add: get_bls_stats_def get_catalog_def)

text \<open>
  C10. When the catalog loads and holds the source, \<open>get_bls_stats\<close> returns rows of
  that source, on the first access as on the later ones that read the cache, and each
  returned row has \<open>per_day = per_min / 1440\<close>. The \<open>per_day\<close> values in the files
  have no influence: replacing them by any others gives the same result.
\<close>

theorem per_day_from_per_min:
  assumes load: "load_catalog files = Inr df"
    and present: "source_id \<in> gid ` set df"
  shows "\<exists>res. get_bls_stats files None source_id = (Inr (Some res), Some df)
       \<and> get_bls_stats files (Some df) source_id = (Inr (Some res), Some df)
       \<and> loc_rows res \<noteq> []
       \<and> (\<forall>r \<in> set (loc_rows res).
             gid r = source_id \<and> per_day r = fdiv (per_min r) (Fin 1440))
       \<and> (\<forall>h. get_bls_stats (map (map (\<lambda>r. r\<lparr>per_day := h r\<rparr>)) files) None source_id
               = (Inr (Some res), Some df))"
proof (intro exI[of _ "df_loc df source_id"] conjI allI ballI)
  show a: "get_bls_stats files None source_id
             = (Inr (Some (df_loc df source_id)), Some df)"
    using load present by (simp add: get_bls_stats_def get_catalog_def)
  show "get_bls_stats files (Some df) source_id
          = (Inr (Some (df_loc df source_id)), Some df)"
    using present by (simp add: get_bls_stats_def get_catalog_def)
  show "loc_rows (df_loc df source_id) \<noteq> []"
    using present by (auto simp: df_loc_rows filter_empty_conv)
  show "gid r = source_id" if "r \<in> set (loc_rows (df_loc df source_id))" for r
    using that by (simp add: df_loc_rows)
  show "per_day r = fdiv (per_min r) (Fin 1440)"
    if "r \<in> set (loc_rows (df_loc df source_id))" for r
    using that load_catalog_per_day[OF load, of r] by (simp add: df_loc_rows)
  show "get_bls_stats (map (map (\<lambda>r. r\<lparr>per_day := h r\<rparr>)) files) None source_id
               = (Inr (Some (df_loc df source_id)), Some df)" for h
    using a by (simp add: get_bls_stats_def get_catalog_def load_catalog_ignores_per_day)
qed

theorem per_day_from_per_min_witness:
  "get_bls_stats [[example_row]] None 7
     = (Inr (Some (Series (example_row\<lparr>per_day := Fin (1/2)\<rparr>))),
        Some [example_row\<lparr>per_day := Fin (1/2)\<rparr>])
   \<and> per_day (example_row\<lparr>per_day := Fin (1/2)\<rparr>)
       = fdiv (per_min (example_row\<lparr>per_day := Fin (1/2)\<rparr>)) (Fin 1440)"
proof -
  let ?r = "example_row\<lparr>per_day := Fin (1/2)\<rparr>"
  have load: "load_catalog [[example_row]] = Inr [?r]"
    by (simp add: load_catalog_def example_row_def)
  have present: "7 \<in> gid ` set [?r]"
    by (simp add: example_row_def)
  have loc: "df_loc [?r] 7 = Series ?r"
    by (simp add: df_loc_def example_row_def)
  have g: "get_bls_stats [[example_row]] None 7 = (Inr (Some (Series ?r)), Some [?r])"
    by (simp add: get_bls_stats_def get_catalog_def load loc present[simplified])
  from per_day_from_per_min[OF load present] obtain res where
    r: "get_bls_stats [[example_row]] None 7 = (Inr (Some res), Some [?r])"
    and rows: "\<forall>r \<in> set (loc_rows res). gid r = 7 \<and> per_day r = fdiv (per_min r) (Fin 1440)"
    by blast
  from r g have "res = Series ?r" by simp
  with rows have "per_day ?r = fdiv (per_min ?r) (Fin 1440)" by simp
  with g show ?thesis by blast
qed

section \<open>Properties of the reduction of a light curve\<close>

subsection \<open>A band without observations\<close>

lemma valid_obs_empty: "valid_obs [] flux flux_err lo hi = []"
  by (simp add: valid_obs_def map_filter_simps)

lemma phase_fold_given_epoch:
  assumes "scalar_truediv (scalar_mul (1/2) period_derivative) period = Inr k"
  shows "\<exists>phases. phase_fold time period period_derivative (Some e) = Inr phases
           \<and> (time = [] \<longrightarrow> phases = [])"
  using assms by (simp add: phase_fold_def)

lemma band_returns:
  assumes len: "length time = length flux" "length flux = length flux_err"
    and k: "scalar_truediv (scalar_mul (1/2) period_derivative) period = Inr k"
    and n: "0 < n"
    and nc: "num_cycles = 1 \<or> num_cycles = 2 \<or> num_cycles = 3"
    and nf: "\<not> truthy normalization"
  shows "\<exists>out. bin_phase_folded_data time flux flux_err period period_derivative (Some e)
                 (int n) num_cycles normalization = Inr out
       \<and> length (phase_col out) = n * nat num_cycles
       \<and> length (flux_col out) = n * nat num_cycles
       \<and> length (flux_err_col out) = n * nat num_cycles
       \<and> (time = [] \<longrightarrow> (\<forall>v \<in> set (flux_col out). v = NaN)
                        \<and> (\<forall>v \<in> set (flux_err_col out). v = NaN))"
proof -
  from phase_fold_given_epoch[OF k] obtain phases where
    pf: "phase_fold time period period_derivative (Some e) = Inr phases"
    and pe: "time = [] \<longrightarrow> phases = []" by blast
  let ?bins = "map (\<lambda>i. bin_result (Fin (bin_mid n i))
                 (valid_obs phases flux flux_err (bin_lo n i) (bin_hi n i))) [0..<n]"
  have st: "bin_phase_folded_data time flux flux_err period period_derivative (Some e)
                 (int n) num_cycles normalization = replicate_cycles ?bins num_cycles"
    unfolding binned_stages[OF pf len n] normalize_falsy[OF nf] by simp
  from n have ne: "?bins \<noteq> []" by simp
  have nan: "col1 b = NaN \<and> col2 b = NaN" if "time = []" "b \<in> set ?bins" for b
    using that pe by (auto simp: valid_obs_empty bin_result_cols)
  obtain out where out: "replicate_cycles ?bins num_cycles = Inr out"
    using nc ne by (auto simp: replicate_cycles_def Let_def)
  from replicate_cycles_length[OF out]
  have l: "length (phase_col out) = n * nat num_cycles"
    "length (flux_col out) = n * nat num_cycles"
    "length (flux_err_col out) = n * nat num_cycles" by simp_all
  have cols: "set (flux_col out) \<subseteq> col1 ` set ?bins \<and> set (flux_err_col out) \<subseteq> col2 ` set ?bins"
    using out nc ne
    by (auto simp: replicate_cycles_def Let_def shift_phase_def col1_def col2_def
             split: if_splits)
  have "(\<forall>v \<in> set (flux_col out). v = NaN) \<and> (\<forall>v \<in> set (flux_err_col out). v = NaN)"
    if "time = []"
    using cols nan[OF that] by blast
  with st out l show ?thesis by (intro exI[of _ out]) simp
qed

lemma bool_index_total:
  assumes "length msk = length a"
  shows "\<exists>ys. bool_index a msk = Inr ys
           \<and> length ys = length (filter (\<lambda>b. b) msk)
           \<and> ((\<forall>b \<in> set msk. \<not> b) \<longrightarrow> ys = [])"
proof -
  have l: "length (filter snd (zip a msk)) = length (filter (\<lambda>b. b) msk)"
    using assms[symmetric] by (induction a msk rule: list_induct2) auto
  have e: "filter snd (zip a msk) = []" if "\<forall>b \<in> set msk. \<not> b"
    using that by (auto simp: filter_empty_conv dest: set_zip_rightD)
  show ?thesis
    using assms l e by (simp add: bool_index_def)
qed


lemma empty_band_normalized:
  assumes k: "scalar_truediv (scalar_mul (1/2) period_derivative) period = Inr k"
    and n: "0 < num_bins" and s: "s \<noteq> []"
  shows "bin_phase_folded_data [] [] [] period period_derivative (Some e) num_bins num_cycles
           (NormStr s) = Inl NoValidData"
proof -
  from n obtain m where m: "num_bins = int m" "0 < m"
    by (metis nat_0_le order_less_imp_le zero_less_nat_eq)
  from phase_fold_given_epoch[OF k, of "[]" e]
  have pf: "phase_fold [] period period_derivative (Some e) = Inr []" by auto
  have l: "length ([]::npfloat list) = length ([]::npfloat list)" by simp
  have fv: "finite_values (map col1 (map (\<lambda>i. bin_result (Fin (bin_mid m i)) []) [0..<m])) = []"
    by (simp add: finite_values_def map_filter_def bin_result_cols comp_def)
  show ?thesis
    unfolding m(1) binned_stages[OF pf l l m(2)] valid_obs_empty
    using s m(2) fv by (simp add: normalize_bins_def)
qed

lemma example_catalog_lookup:
  "get_bls_stats (result_files example_env) None 7
     = (Inr (Some (Series (example_row\<lparr>per_day := Fin (1/2)\<rparr>))),
        Some [example_row\<lparr>per_day := Fin (1/2)\<rparr>])"
  and "get_bls_stats (result_files example_env) None 8
     = (Inr None, Some [example_row\<lparr>per_day := Fin (1/2)\<rparr>])"
  by (simp_all add: get_bls_stats_def get_catalog_def load_catalog_def df_loc_def
        example_env_def example_row_def)


text \<open>
  With a normalization the empty band stops the reduction: source 7 has no observation in
  the band \<^verbatim>\<open>'c'\<close>, every bin of that band is NaN, and the check for a finite flux
  raises. No mapping is returned.
\<close>

theorem empty_band_normalized_counterexample:
  "read_bin_lightcurve_checkpoint example_env None 7 2 1 (NormStr ''median'') None None
     = (Inl NoValidData, Some [example_row\<lparr>per_day := Fin (1/2)\<rparr>])"
proof -
  have eb: "bin_phase_folded_data [] [] [] (NpFloat64 (Fin (1/2))) (PyFloat (Fin 0))
              (Some (Fin 0)) 2 1 (NormStr ''median'') = Inl NoValidData"
    by (rule empty_band_normalized[where k = "Fin 0"]) simp_all
  have lc: "read_lightcurve_checkpoint example_env 7
      = Inr (Some \<lparr> lc_time = [Fin (15 / 86400)], lc_flux = [Fin 10], lc_flux_err = [Fin 1],
                     lc_filter = [''o''], lc_ra = Fin 0, lc_dec = Fin 0 \<rparr>)"
    by (simp add: read_lightcurve_checkpoint_def lightcurve_of_def example_env_def)
  show ?thesis
    unfolding read_bin_lightcurve_checkpoint_def lc example_catalog_lookup
    by (simp add: bool_index_def eb example_row_def)
qed


text \<open>
  C8, as the code has it. Let the light curve of the source be readable, let the
  barycentric conversion keep the length of the time array, let the period and
  the epoch be known (from a catalog row, or both passed, the period not being a Python
  zero), let there be \<open>n \<ge> 1\<close> bins and one, two or three cycles, and no
  normalization. Then the reduction of \<^verbatim>\<open>io-checkpoint.py\<close> returns the mapping with
  the two labels \<^verbatim>\<open>'c'\<close> and \<^verbatim>\<open>'o'\<close>, in this order; each curve has
  \<open>n * num_cycles\<close> entries in each column; and the flux and the error of a band
  without observations are NaN throughout.
\<close>

theorem empty_band_nan_curve:
  assumes lc: "lc_files env source_id = Some (r # rs)"
    and bjd: "\<forall>ts ra dec. length (bjd_convert env ts ra dec) = length ts"
    and cat: "get_bls_stats (result_files env) cache source_id = (Inr bls, cache')"
    and per: "(\<exists>b. bls = Some (Series b))
            \<or> (bls = None \<and> (\<exists>p e. period = Some p \<and> p \<noteq> PyFloat (Fin 0)
                                   \<and> reference_epoch = Some e))"
    and n: "0 < n"
    and nc: "num_cycles = 1 \<or> num_cycles = 2 \<or> num_cycles = 3"
    and nf: "\<not> truthy normalization"
  shows "\<exists>binned_c binned_o.
           read_bin_lightcurve_checkpoint env cache source_id (int n) num_cycles normalization
               period reference_epoch
             = (Inr (Some [(''c'', binned_c), (''o'', binned_o)]), cache')
         \<and> length (phase_col binned_c) = n * nat num_cycles
         \<and> length (flux_col binned_c) = n * nat num_cycles
         \<and> length (flux_err_col binned_c) = n * nat num_cycles
         \<and> length (phase_col binned_o) = n * nat num_cycles
         \<and> length (flux_col binned_o) = n * nat num_cycles
         \<and> length (flux_err_col binned_o) = n * nat num_cycles
         \<and> ((\<forall>x \<in> set (r # rs). filter_name x \<noteq> ''c'') \<longrightarrow>
                (\<forall>v \<in> set (flux_col binned_c). v = NaN)
              \<and> (\<forall>v \<in> set (flux_err_col binned_c). v = NaN))
         \<and> ((\<forall>x \<in> set (r # rs). filter_name x \<noteq> ''o'') \<longrightarrow>
                (\<forall>v \<in> set (flux_col binned_o). v = NaN)
              \<and> (\<forall>v \<in> set (flux_err_col binned_o). v = NaN))"
proof -
  let ?lc = "lightcurve_of env r rs"
  let ?sel = "case bls of
                Some (Series bls_data) \<Rightarrow> Some (NpFloat64 (per_day bls_data), Some (epo bls_data))
              | _ \<Rightarrow> (case period of None \<Rightarrow> None | Some p \<Rightarrow> Some (p, reference_epoch))"
  from per obtain p' e' k where sel: "?sel = Some (p', Some e')"
    and k: "scalar_truediv (scalar_mul (1/2) (PyFloat (Fin 0))) p' = Inr k"
  proof
    assume "\<exists>b. bls = Some (Series b)"
    then obtain b where b: "bls = Some (Series b)" by blast
    show ?thesis
      by (rule that[of "NpFloat64 (per_day b)" "epo b"
            "fdiv (fmul (Fin (1/2)) (Fin 0)) (per_day b)"]) (simp_all add: b)
  next
    assume "bls = None \<and> (\<exists>p e. period = Some p \<and> p \<noteq> PyFloat (Fin 0)
                                   \<and> reference_epoch = Some e)"
    then obtain p e where b: "bls = None" "period = Some p" "p \<noteq> PyFloat (Fin 0)"
      "reference_epoch = Some e" by blast
    from b(3) obtain k where "scalar_truediv (scalar_mul (1/2) (PyFloat (Fin 0))) p = Inr k"
      by (cases p) auto
    then show ?thesis by (rule that[of p e k, rotated]) (simp add: b)
  qed
  from per have nodf: "bls \<noteq> Some (DataFrame d)" for d by auto
  have lt: "length (lc_time ?lc) = length (r # rs)" "length (lc_flux ?lc) = length (r # rs)"
    "length (lc_flux_err ?lc) = length (r # rs)" "length (lc_filter ?lc) = length (r # rs)"
    using bjd by (simp_all add: lightcurve_of_def Let_def)
  let ?band = "\<lambda>msk.
      case bool_index (lc_time ?lc) msk of Inl e \<Rightarrow> Inl e | Inr t \<Rightarrow>
      case bool_index (lc_flux ?lc) msk of Inl e \<Rightarrow> Inl e | Inr f \<Rightarrow>
      case bool_index (lc_flux_err ?lc) msk of Inl e \<Rightarrow> Inl e | Inr fe \<Rightarrow>
        bin_phase_folded_data t f fe p' (PyFloat (Fin 0)) (Some e') (int n) num_cycles
          normalization"
  have band: "\<exists>out. ?band msk = Inr out
       \<and> length (phase_col out) = n * nat num_cycles
       \<and> length (flux_col out) = n * nat num_cycles
       \<and> length (flux_err_col out) = n * nat num_cycles
       \<and> ((\<forall>b \<in> set msk. \<not> b) \<longrightarrow> (\<forall>v \<in> set (flux_col out). v = NaN)
                        \<and> (\<forall>v \<in> set (flux_err_col out). v = NaN))"
    if m: "length msk = length (r # rs)" for msk
  proof -
    from bool_index_total[of msk "lc_time ?lc"] m lt obtain t where
      t: "bool_index (lc_time ?lc) msk = Inr t" "length t = length (filter (\<lambda>b. b) msk)"
      "(\<forall>b \<in> set msk. \<not> b) \<longrightarrow> t = []" by auto
    from bool_index_total[of msk "lc_flux ?lc"] m lt obtain f where
      f: "bool_index (lc_flux ?lc) msk = Inr f" "length f = length (filter (\<lambda>b. b) msk)"
      by auto
    from bool_index_total[of msk "lc_flux_err ?lc"] m lt obtain fe where
      fe: "bool_index (lc_flux_err ?lc) msk = Inr fe" "length fe = length (filter (\<lambda>b. b) msk)"
      by auto
    from t(2) f(2) fe(2) have l: "length t = length f" "length f = length fe" by simp_all
    from band_returns[OF l k n nc nf, of e'] t(3) show ?thesis
      unfolding t(1) f(1) fe(1) by auto
  qed
  let ?cm = "map (\<lambda>f. f = ''c'') (lc_filter ?lc)"
  let ?om = "map (\<lambda>f. f = ''o'') (lc_filter ?lc)"
  from band[of ?cm] lt obtain bc where bc: "?band ?cm = Inr bc"
    "length (phase_col bc) = n * nat num_cycles" "length (flux_col bc) = n * nat num_cycles"
    "length (flux_err_col bc) = n * nat num_cycles"
    "(\<forall>b \<in> set ?cm. \<not> b) \<longrightarrow> (\<forall>v \<in> set (flux_col bc). v = NaN)
                        \<and> (\<forall>v \<in> set (flux_err_col bc). v = NaN)"
    by auto
  from band[of ?om] lt obtain bo where bo: "?band ?om = Inr bo"
    "length (phase_col bo) = n * nat num_cycles" "length (flux_col bo) = n * nat num_cycles"
    "length (flux_err_col bo) = n * nat num_cycles"
    "(\<forall>b \<in> set ?om. \<not> b) \<longrightarrow> (\<forall>v \<in> set (flux_col bo). v = NaN)
                        \<and> (\<forall>v \<in> set (flux_err_col bo). v = NaN)"
    by auto
  have fl: "lc_filter ?lc = map filter_name (r # rs)"
    by (simp add: lightcurve_of_def Let_def)
  have res: "read_bin_lightcurve_checkpoint env cache source_id (int n) num_cycles normalization
               period reference_epoch
             = (Inr (Some [(''c'', bc), (''o'', bo)]), cache')"
  proof (cases bls)
    case None
    with sel bc(1) bo(1) lc cat show ?thesis
      by (simp add: read_bin_lightcurve_checkpoint_def read_lightcurve_checkpoint_def Let_def)
  next
    case (Some lr)
    with nodf obtain b where b: "lr = Series b" by (cases lr) auto
    with Some sel bc(1) bo(1) lc cat show ?thesis
      by (simp add: read_bin_lightcurve_checkpoint_def read_lightcurve_checkpoint_def Let_def)
  qed
  have cn: "\<forall>b \<in> set ?cm. \<not> b" if "\<forall>x \<in> set (r # rs). filter_name x \<noteq> ''c''"
    using that unfolding fl by auto
  have on: "\<forall>b \<in> set ?om. \<not> b" if "\<forall>x \<in> set (r # rs). filter_name x \<noteq> ''o''"
    using that unfolding fl by auto
  show ?thesis
    apply (rule exI[of _ bc], rule exI[of _ bo])
    using res bc(2-5) bo(2-5) cn on by blast
qed

theorem empty_band_nan_curve_witness:
  "\<exists>binned_c binned_o.
     read_bin_lightcurve_checkpoint example_env None 7 2 3 NormFalse None None
       = (Inr (Some [(''c'', binned_c), (''o'', binned_o)]),
          Some [example_row\<lparr>per_day := Fin (1/2)\<rparr>])
   \<and> length (flux_col binned_c) = 6 \<and> length (flux_err_col binned_c) = 6
   \<and> (\<forall>v \<in> set (flux_col binned_c). v = NaN)
   \<and> (\<forall>v \<in> set (flux_err_col binned_c). v = NaN)"
proof -
  have lc: "lc_files example_env 7
      = Some [\<lparr> mjd = Fin 0, ujy = Fin 10, dujy = Fin 1, filter_name = ''o'',
                 row_ra = Fin 0, row_dec = Fin 0 \<rparr>]"
    by (simp add: example_env_def)
  have bjd: "\<forall>ts ra dec. length (bjd_convert example_env ts ra dec) = length ts"
    by (simp add: example_env_def)
  have per: "(\<exists>b. Some (Series (example_row\<lparr>per_day := Fin (1/2)\<rparr>)) = Some (Series b))
            \<or> (Some (Series (example_row\<lparr>per_day := Fin (1/2)\<rparr>)) = None
                \<and> (\<exists>p e. (None::pyscalar option) = Some p \<and> p \<noteq> PyFloat (Fin 0)
                                   \<and> (None::npfloat option) = Some e))"
    by simp
  have n: "0 < (2::nat)" and nc: "(3::int) = 1 \<or> (3::int) = 2 \<or> (3::int) = 3"
    and nf: "\<not> truthy NormFalse" by simp_all
  from empty_band_nan_curve[OF lc bjd example_catalog_lookup(1) per n nc nf]
  show ?thesis by (simp add: nat_mult_distrib) blast
qed


subsection \<open>Missing data\<close>

text \<open>
  A source without catalog entry makes both reductions return \<^verbatim>\<open>None\<close>, and a source
  without light-curve file makes the reduction of \<^verbatim>\<open>io-checkpoint.py\<close> return
  \<^verbatim>\<open>None\<close>. The reduction of \<^verbatim>\<open>io.py\<close> tests \<^verbatim>\<open>lc_data is None\<close> too, but its
  \<^verbatim>\<open>read_lightcurve\<close> does not catch the exception of \<^verbatim>\<open>pd.read_csv\<close>.
\<close>

lemma read_bin_lightcurve_missing_file:
  "lc_files env source_id = None \<Longrightarrow>
     read_bin_lightcurve env cache source_id num_bins num_cycles normalization
       = (Inl FileNotFoundError, cache)"
  by (simp add: read_bin_lightcurve_def read_lightcurve_def)

lemma read_bin_lightcurve_checkpoint_missing_file:
  "lc_files env source_id = None \<Longrightarrow>
     read_bin_lightcurve_checkpoint env cache source_id num_bins num_cycles normalization
         period reference_epoch
       = (Inr None, cache)"
  by (simp add: read_bin_lightcurve_checkpoint_def read_lightcurve_checkpoint_def)

lemma read_bin_lightcurve_no_period:
  assumes "lc_files env source_id = Some (r # rs)"
    and "get_bls_stats (result_files env) cache source_id = (Inr None, cache')"
  shows "read_bin_lightcurve env cache source_id num_bins num_cycles normalization
           = (Inr None, cache')"
    and "read_bin_lightcurve_checkpoint env cache source_id num_bins num_cycles normalization
           None reference_epoch = (Inr None, cache')"
  using assms
  by (simp_all add: read_bin_lightcurve_def read_lightcurve_def
        read_bin_lightcurve_checkpoint_def read_lightcurve_checkpoint_def)


text \<open>
  C7 does not hold for \<^verbatim>\<open>io.py\<close>: source 8 has no light-curve file, and
  \<open>read_bin_lightcurve\<close> raises \<^verbatim>\<open>FileNotFoundError\<close> where the claim asks for
  \<^verbatim>\<open>None\<close>.
\<close>

theorem missing_lightcurve_raises:
  "read_bin_lightcurve example_env None 8 500 3 NormFalse = (Inl FileNotFoundError, None)"
  by (simp add: read_bin_lightcurve_def read_lightcurve_def example_env_def)

end
